theory Spec2Isabelle
  imports Main "HOL-Library.Word"
begin

section \<open>The call node (src/Compiler/AST/ASTMethod.hpp)\<close>

subsection \<open>The built-in operators\<close>

text \<open>
  \<open>ASTMethodable::BuiltInType\<close>, with the enumerators in the order of the source. The
  enumerator \<open>None\<close> is written \<open>None'\<close>: it is the initial value of the field
  \<open>builtIn_\<close> and stands for "no built-in operator".
\<close>

datatype BuiltInType =
    None'
  | DoubleMultiply | DoubleAdd | DoubleSubstract | DoubleDivide | DoubleGreater | DoubleGreaterOrEqual
  | DoubleLess | DoubleLessOrEqual | DoubleRemainder | DoubleEqual
  | IntegerMultiply | IntegerAdd | IntegerSubstract | IntegerDivide | IntegerGreater | IntegerGreaterOrEqual
  | IntegerLess | IntegerLessOrEqual | IntegerLeftShift | IntegerRightShift | IntegerOr | IntegerAnd | IntegerXor
  | IntegerRemainder | IntegerToDouble | IntegerNot
  | BooleanAnd | BooleanOr | BooleanNegate
  | Equal | Store | Load | IsNoValueLeft | IsNoValueRight

text \<open>The enumerators as a list, in declaration order.\<close>

definition builtInTypes :: "BuiltInType list" where
  "builtInTypes =
    [None',
     DoubleMultiply, DoubleAdd, DoubleSubstract, DoubleDivide, DoubleGreater, DoubleGreaterOrEqual,
     DoubleLess, DoubleLessOrEqual, DoubleRemainder, DoubleEqual,
     IntegerMultiply, IntegerAdd, IntegerSubstract, IntegerDivide, IntegerGreater, IntegerGreaterOrEqual,
     IntegerLess, IntegerLessOrEqual, IntegerLeftShift, IntegerRightShift, IntegerOr, IntegerAnd, IntegerXor,
     IntegerRemainder, IntegerToDouble, IntegerNot,
     BooleanAnd, BooleanOr, BooleanNegate,
     Equal, Store, Load, IsNoValueLeft, IsNoValueRight]"

text \<open>
  What each enumerator names. The operand kind is the primitive kind in the enumerator's
  name, the only thing an enumerator of a C++ \<open>enum class\<close> carries; the operation is
  the rest of the name, sorted into the kinds of operation: the six the catalog's
  description lists (arithmetic, comparison, boolean connectives and negation, generic
  equality, raw store and load, optional-is-absent test) and the three it does not
  (no operator at all, bitwise operation, conversion).
\<close>

datatype OperandKind = DoubleOperand | IntegerOperand | BooleanOperand

fun operandKind :: "BuiltInType \<Rightarrow> OperandKind option" where
  "operandKind DoubleMultiply = Some DoubleOperand"
| "operandKind DoubleAdd = Some DoubleOperand"
| "operandKind DoubleSubstract = Some DoubleOperand"
| "operandKind DoubleDivide = Some DoubleOperand"
| "operandKind DoubleGreater = Some DoubleOperand"
| "operandKind DoubleGreaterOrEqual = Some DoubleOperand"
| "operandKind DoubleLess = Some DoubleOperand"
| "operandKind DoubleLessOrEqual = Some DoubleOperand"
| "operandKind DoubleRemainder = Some DoubleOperand"
| "operandKind DoubleEqual = Some DoubleOperand"
| "operandKind IntegerMultiply = Some IntegerOperand"
| "operandKind IntegerAdd = Some IntegerOperand"
| "operandKind IntegerSubstract = Some IntegerOperand"
| "operandKind IntegerDivide = Some IntegerOperand"
| "operandKind IntegerGreater = Some IntegerOperand"
| "operandKind IntegerGreaterOrEqual = Some IntegerOperand"
| "operandKind IntegerLess = Some IntegerOperand"
| "operandKind IntegerLessOrEqual = Some IntegerOperand"
| "operandKind IntegerLeftShift = Some IntegerOperand"
| "operandKind IntegerRightShift = Some IntegerOperand"
| "operandKind IntegerOr = Some IntegerOperand"
| "operandKind IntegerAnd = Some IntegerOperand"
| "operandKind IntegerXor = Some IntegerOperand"
| "operandKind IntegerRemainder = Some IntegerOperand"
| "operandKind IntegerToDouble = Some IntegerOperand"
| "operandKind IntegerNot = Some IntegerOperand"
| "operandKind BooleanAnd = Some BooleanOperand"
| "operandKind BooleanOr = Some BooleanOperand"
| "operandKind BooleanNegate = Some BooleanOperand"
| "operandKind None' = None"
| "operandKind Equal = None"
| "operandKind Store = None"
| "operandKind Load = None"
| "operandKind IsNoValueLeft = None"
| "operandKind IsNoValueRight = None"

datatype OperatorCategory =
    Arithmetic | Comparison | BooleanLogic | GenericEquality | RawStoreLoad | OptionalIsAbsent
  | NoOperator | Bitwise | Conversion

fun category :: "BuiltInType \<Rightarrow> OperatorCategory" where
  "category None' = NoOperator"
| "category DoubleMultiply = Arithmetic"
| "category DoubleAdd = Arithmetic"
| "category DoubleSubstract = Arithmetic"
| "category DoubleDivide = Arithmetic"
| "category DoubleGreater = Comparison"
| "category DoubleGreaterOrEqual = Comparison"
| "category DoubleLess = Comparison"
| "category DoubleLessOrEqual = Comparison"
| "category DoubleRemainder = Arithmetic"
| "category DoubleEqual = Comparison"
| "category IntegerMultiply = Arithmetic"
| "category IntegerAdd = Arithmetic"
| "category IntegerSubstract = Arithmetic"
| "category IntegerDivide = Arithmetic"
| "category IntegerGreater = Comparison"
| "category IntegerGreaterOrEqual = Comparison"
| "category IntegerLess = Comparison"
| "category IntegerLessOrEqual = Comparison"
| "category IntegerLeftShift = Bitwise"
| "category IntegerRightShift = Bitwise"
| "category IntegerOr = Bitwise"
| "category IntegerAnd = Bitwise"
| "category IntegerXor = Bitwise"
| "category IntegerRemainder = Arithmetic"
| "category IntegerToDouble = Conversion"
| "category IntegerNot = Bitwise"
| "category BooleanAnd = BooleanLogic"
| "category BooleanOr = BooleanLogic"
| "category BooleanNegate = BooleanLogic"
| "category Equal = GenericEquality"
| "category Store = RawStoreLoad"
| "category Load = RawStoreLoad"
| "category IsNoValueLeft = OptionalIsAbsent"
| "category IsNoValueRight = OptionalIsAbsent"

text \<open>
  The catalog as the specification describes it: "arithmetic on two numeric kinds,
  comparisons, boolean connectives and negation, generic equality, raw store/load,
  optional-is-absent tests in left/right position".
\<close>

definition specCategories :: "OperatorCategory list" where
  "specCategories =
    [Arithmetic, Comparison, BooleanLogic, GenericEquality, RawStoreLoad, OptionalIsAbsent]"

subsection \<open>The data model of the specification\<close>

text \<open>
  Modelled from the spec: the types of section 3. The bodies of \<open>analyseMethodCall\<close>,
  \<open>builtIn\<close>, \<open>analyseMultiProtocolCall\<close> and \<open>checkMutation\<close> are in ASTMethod.cpp,
  which is not among the sources; the header declares them only, and the classes
  \<open>Type\<close>, \<open>Function\<close> and \<open>ASTExpr\<close> they work on are missing as well. Primitive
  kinds are a type parameter \<open>'k\<close>; declarations are named by references (natural
  numbers).
\<close>

type_synonym ref = nat

datatype 'k TypeTag =
    Primitive 'k
  | ClassTag ref
  | ValueTypeTag ref
  | EnumTag ref
  | ProtocolTag ref
  | ProtocolIntersection "ref list"

datatype 'k TypeDescriptor =
  TypeDescriptor (tag: "'k TypeTag") (isOptional: bool) (genericArguments: "'k TypeDescriptor list")

datatype SignatureAccess = PrivateAccess | ProtectedAccess | PublicAccess

record 'k MethodSignature =
  signatureName :: string
  mutating :: bool
  signatureAccess :: SignatureAccess
  parameterTypes :: "'k TypeDescriptor list"
  signatureReturnType :: "'k TypeDescriptor"
  genericParameters :: "string list"
  owningType :: ref

datatype 'k ResolvedCall =
    StaticDispatch "'k MethodSignature"
  | DynamicDispatch "'k MethodSignature"
  | ProtocolDispatch "'k MethodSignature" ref

fun resolvedSignature :: "'k ResolvedCall \<Rightarrow> 'k MethodSignature" where
  "resolvedSignature (StaticDispatch sig) = sig"
| "resolvedSignature (DynamicDispatch sig) = sig"
| "resolvedSignature (ProtocolDispatch sig p) = sig"

datatype ResolutionError =
    MethodNotFound
  | AmbiguousProtocolMethod
  | ArityMismatch
  | ArgumentTypeMismatch nat
  | AccessViolation
  | GenericUnificationFailure
  | MutationOnImmutableReceiver

text \<open>
  Modelled from the spec: the states of a call node (section 4.4). A terminal state
  carries the decision: the intrinsic, the dispatch with its signature, or the first
  error.
\<close>

datatype 'k NodeState =
    Unanalyzed
  | BuiltInMatched BuiltInType
  | DispatchResolved "'k ResolvedCall"
  | Failed ResolutionError

text \<open>
  Modelled from the spec: what a call node needs of a sub-expression, the outcome of
  analysing it on its own (its checked type, or its error) and the storage it denotes.
  Of the storage, the words of section 4.3: "a mutable local variable, a mutable member access through a
  mutable chain, or self inside a mutating context - not a temporary, not an immutable
  binding, not a non-mutating self".
\<close>

datatype Storage =
    LocalVariable bool
  | MemberAccess Storage bool
  | Self bool
  | Temporary

fun mutableLocation :: "Storage \<Rightarrow> bool" where
  "mutableLocation (LocalVariable declaredMutable) = declaredMutable"
| "mutableLocation (MemberAccess base declaredMutable) = (declaredMutable \<and> mutableLocation base)"
| "mutableLocation (Self mutatingContext) = mutatingContext"
| "mutableLocation Temporary = False"

record 'k Expression =
  analysed :: "ResolutionError + 'k TypeDescriptor"
  storage :: Storage

record 'k CallExpressionNode =
  callee :: "'k Expression"
  callName :: string
  args :: "'k Expression list"
  state :: "'k NodeState"

text \<open>
  Modelled from the spec: an entry of the Built-in Intrinsic Table (section 2),
  "(operator-name, receiver primitive kind, argument primitive kinds) -> a fixed
  low-level operation". The table itself is built in ASTMethod.cpp and is a parameter
  here.
\<close>

record 'k BuiltInEntry =
  operatorName :: string
  receiverKind :: 'k
  argumentKinds :: "'k list"
  operator :: BuiltInType

text \<open>
  Modelled from the spec: the frozen declaration tables and the services the resolver
  reads (sections 4.2 and 6), all of them parameters: per protocol and name the list of
  candidate signatures; the choice of the best-matching candidate; the checks that
  follow a name match (generic unification, arity, access level, argument types), which
  answer with the first error if there is one; and the search by name for receivers
  that are not protocol intersections (a class and its superclass chain, a value type,
  an enum, a single protocol), which answers with the declaration found and the kind of
  dispatch, or with the error.
\<close>

record 'k DeclarationTables =
  methodTable :: "ref \<Rightarrow> string \<Rightarrow> 'k MethodSignature list"
  bestMatch :: "'k MethodSignature list \<Rightarrow> 'k TypeDescriptor list \<Rightarrow> 'k MethodSignature"
  postMatchChecks :: "'k MethodSignature \<Rightarrow> 'k TypeDescriptor list \<Rightarrow> ResolutionError option"
  findOther ::
    "'k TypeDescriptor \<Rightarrow> string \<Rightarrow> 'k TypeDescriptor list \<Rightarrow> ResolutionError + 'k ResolvedCall"

subsection \<open>Resolution of a call\<close>

text \<open>
  Modelled from the spec: the primitive kind of a type, if its tag is \<open>Primitive\<close>, and
  the two optional-presence operators (section 4.1).
\<close>

definition primitiveKind :: "'k TypeDescriptor \<Rightarrow> 'k option" where
  "primitiveKind t = (case tag t of Primitive k \<Rightarrow> Some k | _ \<Rightarrow> None)"

definition optionalPresence :: "BuiltInType \<Rightarrow> bool" where
  "optionalPresence op = (op = IsNoValueLeft \<or> op = IsNoValueRight)"

text \<open>
  Modelled from the spec: the key of a table entry against a call, "an exact
  primitive-kind match on receiver and every argument" (section 4.1); the table of
  ASTMethod.cpp is missing.
\<close>

definition entryMatches ::
  "'k BuiltInEntry \<Rightarrow> string \<Rightarrow> 'k TypeDescriptor \<Rightarrow> 'k TypeDescriptor list \<Rightarrow> bool" where
  "entryMatches e n receiver arguments =
    (operatorName e = n \<and> primitiveKind receiver = Some (receiverKind e) \<and>
     map primitiveKind arguments = map Some (argumentKinds e))"

text \<open>
  Modelled from the spec: which entries may answer a call (section 4.1); the table of
  ASTMethod.cpp is missing. An entry must match the call exactly, and "the two
  designated optional-presence intrinsics ... are the only operators allowed to match an
  optional receiver".
\<close>

definition eligible ::
  "'k BuiltInEntry \<Rightarrow> string \<Rightarrow> 'k TypeDescriptor \<Rightarrow> 'k TypeDescriptor list \<Rightarrow> bool" where
  "eligible e n receiver arguments =
    (entryMatches e n receiver arguments \<and>
     (if isOptional receiver then optionalPresence (operator e) else True))"

text \<open>
  Modelled from the spec: \<open>ASTMethodable::builtIn\<close>, whose body is missing; section 4.1,
  \<open>match(name, receiverType, argTypes) -> Option<BuiltInOperator>\<close>. The table is
  consulted for a receiver of primitive kind without generic arguments. \<open>None\<close> is the
  source's \<open>false\<close>, \<open>Some op\<close> is \<open>true\<close> with \<open>builtIn_\<close> set to \<open>op\<close>.
\<close>

definition builtIn ::
  "'k BuiltInEntry list \<Rightarrow> 'k TypeDescriptor \<Rightarrow> string \<Rightarrow> 'k TypeDescriptor list \<Rightarrow> BuiltInType option" where
  "builtIn table receiver n arguments =
    (if primitiveKind receiver = None \<or> genericArguments receiver \<noteq> [] then None
     else map_option operator (find (\<lambda>e. eligible e n receiver arguments) table))"

text \<open>
  Modelled from the spec: the uniqueness invariant of the table (section 4.1), "ties
  cannot occur because the table is constructed with a uniqueness invariant".
\<close>

definition tableUnique :: "'k BuiltInEntry list \<Rightarrow> bool" where
  "tableUnique table = distinct (map (\<lambda>e. (operatorName e, receiverKind e, argumentKinds e)) table)"

text \<open>
  Modelled from the spec: a protocol declares a name if its method table has a
  candidate for it (section 6, \<open>methodTable(type) -> mapping name -> list of
  MethodSignature candidates\<close>).
\<close>

definition declaresMethod :: "'k DeclarationTables \<Rightarrow> string \<Rightarrow> ref \<Rightarrow> bool" where
  "declaresMethod decls n p = (methodTable decls p n \<noteq> [])"

text \<open>
  Modelled from the spec: the arity check of section 4.2, "arity mismatch (argument
  count is not parameter count)", one of the checks that follow a name match.
\<close>

definition arityCheck :: "'k MethodSignature \<Rightarrow> 'k TypeDescriptor list \<Rightarrow> ResolutionError option" where
  "arityCheck signature arguments =
    (if length arguments \<noteq> length (parameterTypes signature) then Some ArityMismatch else None)"

text \<open>
  Modelled from the spec: \<open>ASTMethodable::analyseMultiProtocolCall\<close>, whose body is
  missing; section 4.2, the case ProtocolIntersection of the Signature Resolver: "search
  every member protocol's method table for name. Exactly one member may declare it -
  ambiguity (two or more members declare a method with that name) is a hard resolution
  error; zero matches is method not found. On success, dispatch is ProtocolDispatch
  tagged with the specific protocol that declared the match". This is the search; what
  follows a name match is in \<open>resolveDispatch\<close>.
\<close>

definition analyseMultiProtocolCall ::
  "'k DeclarationTables \<Rightarrow> string \<Rightarrow> ref list \<Rightarrow> 'k TypeDescriptor list \<Rightarrow> ResolutionError + 'k ResolvedCall" where
  "analyseMultiProtocolCall decls n members arguments =
    (case filter (declaresMethod decls n) members of
       [] \<Rightarrow> Inl MethodNotFound
     | [p] \<Rightarrow> Inr (ProtocolDispatch (bestMatch decls (methodTable decls p n) arguments) p)
     | _ \<Rightarrow> Inl AmbiguousProtocolMethod)"

text \<open>
  Modelled from the spec: the search of the Signature Resolver (section 4.2), by
  receiver tag; its code is missing. "Given a receiver type and a call name, finds the
  best-matching method declaration" (section 2): the answer is the method found, with
  the kind of dispatch, or the error of the search.
\<close>

definition findMethod ::
  "'k DeclarationTables \<Rightarrow> 'k TypeDescriptor \<Rightarrow> string \<Rightarrow> 'k TypeDescriptor list \<Rightarrow> ResolutionError + 'k ResolvedCall" where
  "findMethod decls receiver n arguments =
    (case tag receiver of
       ProtocolIntersection members \<Rightarrow> analyseMultiProtocolCall decls n members arguments
     | _ \<Rightarrow> findOther decls receiver n arguments)"

text \<open>
  Modelled from the spec: \<open>ASTMethodable::checkMutation\<close>, whose body is missing;
  section 4.3, \<open>checkMutation(receiverExpression, resolvedSignature)\<close>: a no-op if the
  signature is not mutating, otherwise the receiver must denote an addressable,
  declared-mutable storage location.
\<close>

definition checkMutation :: "'k Expression \<Rightarrow> 'k MethodSignature \<Rightarrow> ResolutionError + unit" where
  "checkMutation receiverExpression signature =
    (if \<not> mutating signature then Inr ()
     else if mutableLocation (storage receiverExpression) then Inr ()
     else Inl MutationOnImmutableReceiver)"

text \<open>
  Modelled from the spec: step (1) of section 4.4 for the arguments, whose code is
  missing: each is analysed on its own, in order, and the first error wins.
\<close>

fun analyseArguments :: "'k Expression list \<Rightarrow> ResolutionError + 'k TypeDescriptor list" where
  "analyseArguments [] = Inr []"
| "analyseArguments (e # es) =
    (case analysed e of
       Inl err \<Rightarrow> Inl err
     | Inr t \<Rightarrow> (case analyseArguments es of Inl err \<Rightarrow> Inl err | Inr ts \<Rightarrow> Inr (t # ts)))"

text \<open>
  Modelled from the spec: the dispatch branch of the call node, whose code is missing,
  in the order of section 2: "it asks the Signature Resolver to find a method, applies
  the Mutation Safety Checker against the found method's mutability flag, performs
  access-level and generic-argument checks, and records a dispatch-kind decision". The
  checks are those of section 4.2, "hard errors, checked after a name match is found";
  the first error fails the node (section 4.4, step (4)). Section 4.4 runs the Mutation
  Safety Checker after the resolver and does not say where the checks that follow a
  match stand; with section 2 they stand after the mutation check, as section 8 needs
  for a mutating call on an immutable binding: "resolution always yields
  MutationOnImmutableReceiver, independent of whether the method would otherwise resolve
  successfully".
\<close>

definition resolveDispatch ::
  "'k DeclarationTables \<Rightarrow> 'k CallExpressionNode \<Rightarrow> 'k TypeDescriptor \<Rightarrow> 'k TypeDescriptor list \<Rightarrow> 'k NodeState" where
  "resolveDispatch decls node receiver arguments =
    (case findMethod decls receiver (callName node) arguments of
       Inl err \<Rightarrow> Failed err
     | Inr found \<Rightarrow>
        (case checkMutation (callee node) (resolvedSignature found) of
           Inl err \<Rightarrow> Failed err
         | Inr u \<Rightarrow>
            (case postMatchChecks decls (resolvedSignature found) arguments of
               Some err \<Rightarrow> Failed err
             | None \<Rightarrow> DispatchResolved found)))"

text \<open>
  Modelled from the spec: \<open>ASTMethodable::analyseMethodCall\<close>, whose body is missing;
  the transition order of section 4.4: (1) the callee and the arguments, (2) the
  Built-in Intrinsic Table, (3) the Signature Resolver with the Mutation Safety Checker
  (\<open>resolveDispatch\<close>), (4) the first error.
\<close>

definition analyseMethodCall ::
  "'k BuiltInEntry list \<Rightarrow> 'k DeclarationTables \<Rightarrow> 'k CallExpressionNode \<Rightarrow> 'k NodeState" where
  "analyseMethodCall table decls node =
    (case analysed (callee node) of
       Inl err \<Rightarrow> Failed err
     | Inr receiver \<Rightarrow>
        (case analyseArguments (args node) of
           Inl err \<Rightarrow> Failed err
         | Inr arguments \<Rightarrow>
            (case builtIn table receiver (callName node) arguments of
               Some op \<Rightarrow> BuiltInMatched op
             | None \<Rightarrow> resolveDispatch decls node receiver arguments)))"

section \<open>The package reporter (src/EmojicodeCompiler/PackageReporter.cpp)\<close>

subsection \<open>Strings, types and declarations as the reporter reads them\<close>

text \<open>
  A \<open>std::u32string\<close> is a sequence of 32-bit code units, a \<open>std::string\<close> a sequence of
  bytes. \<open>c_str\<close> is what a C function reading a \<open>const char *\<close> sees of a
  \<open>std::string\<close>: the bytes before the first NUL.
\<close>

type_synonym u32string = "32 word list"

definition c_str :: "string \<Rightarrow> string" where
  "c_str s = takeWhile (\<lambda>c. c \<noteq> CHR 0x00) s"

datatype AccessLevel = Private | Protected | Public

datatype ReturnKind = Return | NoReturn | ErrorProneInitializer

text \<open>
  \<open>TypeType\<close>: the reporter switches on four of its values; every other value takes
  the \<open>default\<close> branch.
\<close>

datatype TypeType = Class | Enum | Protocol | ValueType | OtherTypeType

text \<open>
  Objects live in a store and are named by pointers (natural numbers). A \<open>Type\<close> is
  passed by value; the record holds what the reporter's accessors return:
  \<open>type()\<close>, the type definition pointer behind \<open>eclass()\<close>, \<open>eenum()\<close>,
  \<open>protocol()\<close> and \<open>valueType()\<close>, \<open>typePackage()\<close>, \<open>optional()\<close> and
  \<open>genericVariableIndex()\<close> (a \<open>size_t\<close>).
\<close>

type_synonym pointer = nat

record Type =
  type :: TypeType
  typeDefinition :: pointer
  typePackage :: string
  optional :: bool
  genericVariableIndex :: "64 word"

text \<open>
  \<open>TypeContext(Type(typeDef_, false))\<close> and \<open>TypeContext(Type(typeDef_, false), function)\<close>:
  the type definition pointer, the optional flag and the function pointer, if any.
\<close>

datatype TypeContext = TypeContext pointer bool "pointer option"

record Argument =
  variableName :: u32string
  argumentType :: Type

text \<open>
  \<open>genericArgumentVariables\<close> is a \<open>std::map\<close>: the list holds its entries in the
  order in which the map is iterated.
\<close>

record Function =
  name :: u32string
  accessLevel :: AccessLevel
  returnType :: Type
  genericArgumentVariables :: "(u32string \<times> Type) list"
  genericArgumentConstraints :: "Type list"
  documentation :: u32string
  arguments :: "Argument list"

record Initializer = Function +
  errorProne :: bool
  errorType :: Type

text \<open>The dynamic type of an object a \<open>Function *\<close> points to.\<close>

datatype FunctionObject = PlainFunction Function | InitializerObject Initializer

record TypeDefinition =
  name :: u32string
  protocols :: "Type list"
  ownGenericArgumentVariables :: "(u32string \<times> Type) list"
  genericArgumentConstraints :: "Type list"
  superGenericArguments :: "Type list"
  documentation :: u32string
  methodList :: "pointer list"
  initializerList :: "pointer list"
  typeMethodList :: "pointer list"

record ClassDefinition = TypeDefinition +
  superclass :: "pointer option"
  package :: pointer

text \<open>
  \<open>values()\<close> of an enum is a map from the value's name to a pair whose second
  component is the value's documentation; the list holds the entries in iteration order.
\<close>

record EnumDefinition = TypeDefinition +
  "values" :: "(u32string \<times> (int \<times> u32string)) list"

record ExportedType =
  exportedType :: Type

record Package =
  name :: string
  exportedTypes :: "ExportedType list"
  documentation :: u32string

subsection \<open>The store, the output and the library functions\<close>

text \<open>
  The declarations the compiler holds when the reporter runs: one heap per class of
  object the reporter has pointers to. \<open>Protocol\<close> and \<open>ValueType\<close> objects are read
  through \<open>TypeDefinition\<close> only.
\<close>

record Declarations =
  packages :: "pointer \<rightharpoonup> Package"
  classes :: "pointer \<rightharpoonup> ClassDefinition"
  enums :: "pointer \<rightharpoonup> EnumDefinition"
  protocolDefinitions :: "pointer \<rightharpoonup> TypeDefinition"
  valueTypes :: "pointer \<rightharpoonup> TypeDefinition"
  functionObjects :: "pointer \<rightharpoonup> FunctionObject"

text \<open>
  \<open>CallType\<close> is declared in Functions/CallType.h, which is not among the sources: the
  header ASTMethod.hpp names its enumerator \<open>None\<close>, the others are told apart by a
  number. An \<open>ASTMethodable\<close> holds the decision of the analysis of one call: the fields
  \<open>builtIn_\<close>, \<open>callType_\<close> and \<open>calleeType_\<close> of the header (a name cannot end
  with an underscore here).
\<close>

datatype CallType = CallTypeNone | CallTypeOther nat

record ASTMethodable =
  builtInField :: BuiltInType
  callTypeField :: CallType
  calleeTypeField :: Type

text \<open>
  The state of the program: the declarations, the analysed call nodes, and the bytes
  written to \<open>stdout\<close> so far.
\<close>

record world =
  declarations :: Declarations
  callNodes :: "pointer \<rightharpoonup> ASTMethodable"
  stdout :: string

text \<open>
  Undefined behaviour of the C++ is an error of the model: an index outside a vector,
  and a null or dangling pointer (also the null a failed \<open>dynamic_cast\<close> returns).
\<close>

datatype error = OutOfBounds | NullPointer

type_synonym action = "world \<Rightarrow> error + world"

text \<open>
  Functions the reporter calls whose code is not among the sources: \<open>utf8\<close>,
  \<open>printJSONStringToFile\<close> (as the bytes it writes for a C string) and
  \<open>Type::toString\<close> (a const method that reads the declarations).
\<close>

record Library =
  utf8 :: "u32string \<Rightarrow> string"
  printJSONStringToFile :: "string \<Rightarrow> string"
  toString :: "Declarations \<Rightarrow> Type \<Rightarrow> TypeContext \<Rightarrow> string"

text \<open>
  \<open>printf\<close> with its format already expanded (\<open>%s\<close> writes \<open>c_str\<close> of its
  argument), and \<open>putc\<close>.
\<close>

definition printf :: "string \<Rightarrow> action" where
  "printf s w = Inr (w\<lparr>stdout := stdout w @ s\<rparr>)"

definition putc :: "char \<Rightarrow> action" where
  "putc c w = Inr (w\<lparr>stdout := stdout w @ [c]\<rparr>)"

text \<open>A block of statements: each runs on the state the one before left.\<close>

fun seq :: "action list \<Rightarrow> action" where
  "seq [] w = Inr w"
| "seq (a # as) w = (case a w of Inl e \<Rightarrow> Inl e | Inr w' \<Rightarrow> seq as w')"

text \<open>Dereferencing a pointer into one of the heaps.\<close>

definition deref :: "(Declarations \<Rightarrow> pointer \<rightharpoonup> 'a) \<Rightarrow> pointer \<Rightarrow> ('a \<Rightarrow> action) \<Rightarrow> action" where
  "deref heap p k w = (case heap (declarations w) p of None \<Rightarrow> Inl NullPointer | Some obj \<Rightarrow> k obj w)"

subsection \<open>The reporter\<close>

definition reportDocumentation :: "Library \<Rightarrow> u32string \<Rightarrow> action" where
  \<open>reportDocumentation L doc =
    (if doc = [] then seq []
     else seq [
       printf ''"documentation":'',
       printf (printJSONStringToFile L (c_str (utf8 L doc))),
       putc (CHR '','')])\<close>

definition reportType :: "Library \<Rightarrow> Type \<Rightarrow> TypeContext \<Rightarrow> action" where
  \<open>reportType L t tc w =
    (let returnTypeName = toString L (declarations w) t tc
     in printf (''{"package":"'' @ c_str (typePackage t) @ ''","name":"'' @ c_str returnTypeName @
                ''","optional":'' @ (if optional t then ''true'' else ''false'') @ ''}'') w)\<close>

text \<open>The field is \<open>printedFirst_\<close> in the source.\<close>

record CommaPrinter =
  printedFirst :: bool

definition newCommaPrinter :: CommaPrinter where
  "newCommaPrinter = \<lparr>printedFirst = False\<rparr>"

definition print :: "CommaPrinter \<Rightarrow> world \<Rightarrow> CommaPrinter \<times> world" where
  "print printer w =
    (printer\<lparr>printedFirst := True\<rparr>,
     if printedFirst printer then w\<lparr>stdout := stdout w @ [CHR '','']\<rparr> else w)"

text \<open>
  The loop of the reporter,
  \<open>for (auto x : xs) { printer.print(); body(x); }\<close>, with the printer as loop state.
\<close>

fun forEach :: "CommaPrinter \<Rightarrow> 'a list \<Rightarrow> ('a \<Rightarrow> action) \<Rightarrow> action" where
  "forEach printer [] body w = Inr w"
| "forEach printer (x # xs) body w =
    (case print printer w of
       (printer', w1) \<Rightarrow>
         (case body x w1 of Inl e \<Rightarrow> Inl e | Inr w2 \<Rightarrow> forEach printer' xs body w2))"

text \<open>
  The first loop of \<open>reportGenericArguments\<close>:
  \<open>gans[it.second.genericVariableIndex() - superCount] = it.first\<close>; the subtraction is
  one of \<open>size_t\<close> and wraps.
\<close>

fun assignNames :: "(u32string \<times> Type) list \<Rightarrow> 64 word \<Rightarrow> u32string list \<Rightarrow> error + u32string list" where
  "assignNames [] superCount gans = Inr gans"
| "assignNames (it # rest) superCount gans =
    (let i = unat (genericVariableIndex (snd it) - superCount)
     in if i < length gans then assignNames rest superCount (gans[i := fst it])
        else Inl OutOfBounds)"

definition reportGenericArguments ::
  "Library \<Rightarrow> (u32string \<times> Type) list \<Rightarrow> Type list \<Rightarrow> 64 word \<Rightarrow> TypeContext \<Rightarrow> action" where
  \<open>reportGenericArguments L m constraints superCount tc =
    seq [
      printf ''"genericArguments":['',
      (\<lambda>w. case assignNames m superCount (replicate (length m) []) of
              Inl e \<Rightarrow> Inl e
            | Inr gans \<Rightarrow>
                forEach newCommaPrinter [0 ..< length gans]
                  (\<lambda>i. if i < length constraints
                        then seq [
                          printf ''{"name":'',
                          printf (printJSONStringToFile L (c_str (utf8 L (gans ! i)))),
                          printf '',"constraint":'',
                          reportType L (constraints ! i) tc,
                          printf ''}'']
                        else (\<lambda>w'. Inl OutOfBounds)) w),
      printf ''],'']\<close>

definition asFunction :: "FunctionObject \<Rightarrow> Function" where
  "asFunction obj = (case obj of PlainFunction f \<Rightarrow> f | InitializerObject i \<Rightarrow> Function.truncate i)"

definition asInitializer :: "FunctionObject \<Rightarrow> Initializer option" where
  "asInitializer obj = (case obj of PlainFunction f \<Rightarrow> None | InitializerObject i \<Rightarrow> Some i)"

definition reportFunction :: "Library \<Rightarrow> pointer \<Rightarrow> ReturnKind \<Rightarrow> TypeContext \<Rightarrow> action" where
  \<open>reportFunction L function returnKind tc =
    deref functionObjects function (\<lambda>obj.
      let f = asFunction obj in
      seq [
        printf (''{"name":"'' @ c_str (utf8 L (Function.name f)) @ ''",''),
        (case accessLevel f of
           Private \<Rightarrow> printf (''"access":"'' @ [CHR 0xF0, CHR 0x9F, CHR 0x94, CHR 0x92] @ ''",'')
         | Protected \<Rightarrow> printf (''"access":"'' @ [CHR 0xF0, CHR 0x9F, CHR 0x94, CHR 0x90] @ ''",'')
         | Public \<Rightarrow> printf (''"access":"'' @ [CHR 0xF0, CHR 0x9F, CHR 0x94, CHR 0x93] @ ''",'')),
        (if returnKind = Return then
           seq [printf ''"returnType":'', reportType L (returnType f) tc, putc (CHR '','')]
         else if returnKind = ErrorProneInitializer then
           seq [
             printf ''"errorType":'',
             (case asInitializer obj of
                None \<Rightarrow> (\<lambda>w. Inl NullPointer)
              | Some i \<Rightarrow> reportType L (errorType i) tc),
             putc (CHR '','')]
         else seq []),
        reportGenericArguments L (genericArgumentVariables f) (Function.genericArgumentConstraints f) 0 tc,
        reportDocumentation L (Function.documentation f),
        printf ''"arguments":['',
        forEach newCommaPrinter (arguments f) (\<lambda>argument. seq [
          printf ''{"type":'',
          reportType L (argumentType argument) tc,
          printf '',"name":'',
          printf (printJSONStringToFile L (c_str (utf8 L (variableName argument)))),
          printf ''}'']),
        printf '']}''])\<close>

text \<open>
  \<open>TypeDefinitionReporter<T>\<close>: \<open>typeDef\<close> is the pointer \<open>typeDef_\<close> and \<open>td\<close> the
  object it points to, read through \<open>TypeDefinition\<close>.
\<close>

definition printFunctions :: "Library \<Rightarrow> pointer \<Rightarrow> pointer list \<Rightarrow> action" where
  "printFunctions L typeDef fs =
    forEach newCommaPrinter fs
      (\<lambda>function. reportFunction L function Return (TypeContext typeDef False (Some function)))"

definition reportBasics :: "Library \<Rightarrow> pointer \<Rightarrow> 'a TypeDefinition_scheme \<Rightarrow> action" where
  \<open>reportBasics L typeDef td =
    seq [
      printf (''{"name": "'' @ c_str (utf8 L (TypeDefinition.name td)) @ ''",''),
      printf ''"conformsTo":['',
      forEach newCommaPrinter (protocols td)
        (\<lambda>protocol. reportType L protocol (TypeContext typeDef False None)),
      printf ''],'',
      reportGenericArguments L (ownGenericArgumentVariables td)
        (TypeDefinition.genericArgumentConstraints td)
        (of_nat (length (superGenericArguments td))) (TypeContext typeDef False None),
      reportDocumentation L (TypeDefinition.documentation td),
      printf ''"methods":['',
      printFunctions L typeDef (methodList td),
      printf ''],'',
      printf ''"initializers":['',
      forEach newCommaPrinter (initializerList td)
        (\<lambda>initializer. deref functionObjects initializer (\<lambda>obj.
           case asInitializer obj of
             None \<Rightarrow> (\<lambda>w. Inl NullPointer)
           | Some i \<Rightarrow>
               reportFunction L initializer
                 (if errorProne i then ErrorProneInitializer else NoReturn)
                 (TypeContext typeDef False (Some initializer)))),
      printf ''],'',
      printf ''"typeMethods":['',
      printFunctions L typeDef (typeMethodList td),
      printf '']'']\<close>

text \<open>\<open>TypeDefinitionReporter<ValueType>(valueType).report()\<close> and the same for a protocol.\<close>

definition report ::
  "Library \<Rightarrow> (Declarations \<Rightarrow> pointer \<rightharpoonup> TypeDefinition) \<Rightarrow> pointer \<Rightarrow> action" where
  "report L heap typeDef =
    deref heap typeDef (\<lambda>td. seq [reportBasics L typeDef td, printf ''}''])"

text \<open>\<open>ClassReporter(klass).report()\<close>, with the override of \<open>reportBasics\<close>.\<close>

definition reportClass :: "Library \<Rightarrow> pointer \<Rightarrow> action" where
  \<open>reportClass L typeDef =
    deref classes typeDef (\<lambda>td.
      seq [
        reportBasics L typeDef td,
        (case superclass td of
           None \<Rightarrow> seq []
         | Some super \<Rightarrow>
             deref classes super (\<lambda>superTd.
               deref packages (package superTd) (\<lambda>superPackage.
                 printf ('',"superclass":{"package":"'' @ c_str (Package.name superPackage) @
                         ''","name":"'' @ c_str (utf8 L (TypeDefinition.name superTd)) @ ''"}'')))),
        printf ''}''])\<close>

text \<open>\<open>EnumReporter(enumeration).report()\<close>, with the override of \<open>reportBasics\<close>.\<close>

definition reportEnum :: "Library \<Rightarrow> pointer \<Rightarrow> action" where
  \<open>reportEnum L typeDef =
    deref enums typeDef (\<lambda>td.
      seq [
        reportBasics L typeDef td,
        printf '',"values":['',
        forEach newCommaPrinter (values td) (\<lambda>it. seq [
          printf ''{'',
          reportDocumentation L (snd (snd it)),
          printf (''"value":"'' @ c_str (utf8 L (fst it)) @ ''"}'')]),
        printf '']'',
        printf ''}''])\<close>

text \<open>
  The first loop of \<open>reportPackage\<close>: the exported types are sorted into the four lists
  \<open>(enums, classes, protocols, valueTypes)\<close>, each \<open>push_back\<close> at the end.
\<close>

fun sortExported ::
  "ExportedType list \<Rightarrow> pointer list \<times> pointer list \<times> pointer list \<times> pointer list \<Rightarrow>
   pointer list \<times> pointer list \<times> pointer list \<times> pointer list" where
  "sortExported [] acc = acc"
| "sortExported (exported # rest) (es, cs, ps, vs) =
    sortExported rest
      (case type (exportedType exported) of
         Class \<Rightarrow> (es, cs @ [typeDefinition (exportedType exported)], ps, vs)
       | Enum \<Rightarrow> (es @ [typeDefinition (exportedType exported)], cs, ps, vs)
       | Protocol \<Rightarrow> (es, cs, ps @ [typeDefinition (exportedType exported)], vs)
       | ValueType \<Rightarrow> (es, cs, ps, vs @ [typeDefinition (exportedType exported)])
       | OtherTypeType \<Rightarrow> (es, cs, ps, vs))"

definition reportPackage :: "Library \<Rightarrow> pointer \<Rightarrow> action" where
  \<open>reportPackage L p =
    deref packages p (\<lambda>pkg.
      case sortExported (exportedTypes pkg) ([], [], [], []) of
        (es, cs, ps, vs) \<Rightarrow>
          seq [
            printf ''{'',
            reportDocumentation L (Package.documentation pkg),
            printf ''"valueTypes":['',
            forEach newCommaPrinter vs (\<lambda>valueType. report L valueTypes valueType),
            printf ''],'',
            printf ''"classes":['',
            forEach newCommaPrinter cs (\<lambda>klass. reportClass L klass),
            printf ''],'',
            printf ''"enums": ['',
            forEach newCommaPrinter es (\<lambda>enumeration. reportEnum L enumeration),
            printf ''],'',
            printf ''"protocols":['',
            forEach newCommaPrinter ps (\<lambda>protocol. report L protocolDefinitions protocol),
            printf '']}''])\<close>

subsection \<open>The output the reporter is expected to write\<close>

text \<open>
  Items with a separator between each two of them, none before the first or after the
  last; and strings separated by single commas.
\<close>

fun separatedBy :: "'a \<Rightarrow> 'a list \<Rightarrow> 'a list" where
  "separatedBy c [] = []"
| "separatedBy c [a] = [a]"
| "separatedBy c (a # b # as) = a # c # separatedBy c (b # as)"

fun commaSeparated :: "string list \<Rightarrow> string" where
  "commaSeparated [] = []"
| "commaSeparated [s] = s"
| "commaSeparated (s # t # ss) = s @ [CHR '',''] @ commaSeparated (t # ss)"

text \<open>What \<open>reportType\<close> writes for a type, and what one pass of the second loop of
  \<open>reportGenericArguments\<close> writes for a name and its constraint.\<close>

definition typeJSON :: "Library \<Rightarrow> Declarations \<Rightarrow> TypeContext \<Rightarrow> Type \<Rightarrow> string" where
  \<open>typeJSON L d tc t =
    ''{"package":"'' @ c_str (typePackage t) @ ''","name":"'' @ c_str (toString L d t tc) @
    ''","optional":'' @ (if optional t then ''true'' else ''false'') @ ''}''\<close>

definition genericArgumentJSON ::
  "Library \<Rightarrow> Declarations \<Rightarrow> TypeContext \<Rightarrow> u32string \<times> Type \<Rightarrow> string" where
  \<open>genericArgumentJSON L d tc entry =
    ''{"name":'' @ printJSONStringToFile L (c_str (utf8 L (fst entry))) @
    '',"constraint":'' @ typeJSON L d tc (snd entry) @ ''}''\<close>


text \<open>
  The precondition of \<open>reportGenericArguments\<close>: every variable index lies in
  \<open>[superCount, superCount + map.size())\<close>, and the indices are distinct.
  \<open>slot\<close> is the index the first loop writes at, \<open>namesByIndex\<close> the names ordered by
  variable index.
\<close>

definition slot :: "64 word \<Rightarrow> u32string \<times> Type \<Rightarrow> nat" where
  "slot superCount it = unat (genericVariableIndex (snd it) - superCount)"

definition indicesInRange :: "(u32string \<times> Type) list \<Rightarrow> 64 word \<Rightarrow> bool" where
  "indicesInRange m superCount =
    list_all (\<lambda>it. unat superCount \<le> unat (genericVariableIndex (snd it)) \<and>
                   unat (genericVariableIndex (snd it)) < unat superCount + length m) m"

definition indicesDistinct :: "(u32string \<times> Type) list \<Rightarrow> bool" where
  "indicesDistinct m = distinct (map (\<lambda>it. genericVariableIndex (snd it)) m)"

definition namesByIndex :: "(u32string \<times> Type) list \<Rightarrow> u32string list" where
  "namesByIndex m = map fst (sort_key (\<lambda>it. unat (genericVariableIndex (snd it))) m)"

subsection \<open>Actions that only write output\<close>

text \<open>
  An action only writes output if a run that returns leaves the state as it was but for
  bytes appended to \<open>stdout\<close>, and if it does the same whatever the analysed call nodes
  hold: it does not read them.
\<close>

definition outputOnly :: "action \<Rightarrow> bool" where
  "outputOnly a =
    ((\<forall>w w'. a w = Inr w' \<longrightarrow> (\<exists>s. w' = w\<lparr>stdout := stdout w @ s\<rparr>)) \<and>
     (\<forall>w cn. a (w\<lparr>callNodes := cn\<rparr>) =
        (case a w of Inl e \<Rightarrow> Inl e | Inr w' \<Rightarrow> Inr (w'\<lparr>callNodes := cn\<rparr>))))"

subsection \<open>Concrete inputs\<close>

text \<open>
  A library for the concrete runs below: \<open>utf8\<close> knows the letters A and B, the JSON
  printer puts its argument in quotes, and every type is printed as T.
\<close>

definition exampleLibrary :: Library where
  \<open>exampleLibrary =
    \<lparr>utf8 = map (\<lambda>c. if c = 0x41 then CHR ''A'' else if c = 0x42 then CHR ''B'' else CHR ''?''),
     printJSONStringToFile = (\<lambda>s. ''"'' @ s @ ''"''),
     toString = (\<lambda>d t tc. ''T'')\<rparr>\<close>

definition emptyWorld :: world where
  "emptyWorld =
    \<lparr>declarations = \<lparr>packages = Map.empty, classes = Map.empty, enums = Map.empty,
       protocolDefinitions = Map.empty, valueTypes = Map.empty, functionObjects = Map.empty\<rparr>,
     callNodes = Map.empty, stdout = []\<rparr>"

definition exampleType :: "64 word \<Rightarrow> Type" where
  "exampleType i =
    \<lparr>type = ValueType, typeDefinition = 0, typePackage = ''s'', optional = False,
     genericVariableIndex = i\<rparr>"

text \<open>
  A package that exports two classes (one with a superclass, a method and an error-prone
  initializer), an enum and a type that is none of the four reported kinds; a call node
  as the analysis leaves it; and the JSON the reporter writes for the package.
\<close>

definition exampleTypeDefinition :: "pointer list \<Rightarrow> pointer list \<Rightarrow> TypeDefinition" where
  "exampleTypeDefinition ms is =
    \<lparr>TypeDefinition.name = [0x41], protocols = [exampleType 0],
     ownGenericArgumentVariables = [([0x42], exampleType 1)],
     genericArgumentConstraints = [exampleType 0],
     superGenericArguments = [exampleType 0],
     documentation = [0x41],
     methodList = ms, initializerList = is, typeMethodList = []\<rparr>"

definition exampleFunction :: Function where
  "exampleFunction =
    \<lparr>Function.name = [0x41], accessLevel = Public, returnType = exampleType 0,
     genericArgumentVariables = [], genericArgumentConstraints = [],
     documentation = [],
     arguments = [\<lparr>variableName = [0x42], argumentType = exampleType 0\<rparr>]\<rparr>"

definition exampleDeclarations :: Declarations where
  "exampleDeclarations =
    \<lparr>packages = [1 \<mapsto> \<lparr>Package.name = ''p'',
         exportedTypes = [
           \<lparr>exportedType = (exampleType 0)\<lparr>type := Class, typeDefinition := 10\<rparr>\<rparr>,
           \<lparr>exportedType = (exampleType 0)\<lparr>type := Enum, typeDefinition := 20\<rparr>\<rparr>,
           \<lparr>exportedType = (exampleType 0)\<lparr>type := OtherTypeType\<rparr>\<rparr>,
           \<lparr>exportedType = (exampleType 0)\<lparr>type := Class, typeDefinition := 11\<rparr>\<rparr>],
         documentation = []\<rparr>],
     classes = [10 \<mapsto> TypeDefinition.extend (exampleTypeDefinition [100] [101])
                        \<lparr>superclass = Some 11, package = 1\<rparr>,
                11 \<mapsto> TypeDefinition.extend (exampleTypeDefinition [] [])
                        \<lparr>superclass = None, package = 1\<rparr>],
     enums = [20 \<mapsto> TypeDefinition.extend (exampleTypeDefinition [] [])
                        \<lparr>values = [([0x41], (0, [0x42]))]\<rparr>],
     protocolDefinitions = Map.empty,
     valueTypes = Map.empty,
     functionObjects = [100 \<mapsto> PlainFunction exampleFunction,
                        101 \<mapsto> InitializerObject (Function.extend exampleFunction
                                 \<lparr>errorProne = True, errorType = exampleType 0\<rparr>)]\<rparr>"

definition exampleWorld :: world where
  "exampleWorld = \<lparr>declarations = exampleDeclarations, callNodes = Map.empty, stdout = []\<rparr>"

definition exampleNode :: ASTMethodable where
  "exampleNode = \<lparr>builtInField = IntegerAdd, callTypeField = CallTypeNone, calleeTypeField = exampleType 0\<rparr>"

definition exampleOutput :: string where
  \<open>exampleOutput =
     ''{"valueTypes":[],"classes":[{"name": "A","conformsTo":[{"package":"s",'' @
     ''"name":"T","optional":false}],"genericArguments":[{"name":"B","constra'' @
     ''int":{"package":"s","name":"T","optional":false}}],"documentation":"A"'' @
     '',"methods":[{"name":"A","access":"'' @
     [CHR 0xF0, CHR 0x9F, CHR 0x94, CHR 0x93] @
     ''","returnType":{"package":"s","name":"T","optional":false},"genericArg'' @
     ''uments":[],"arguments":[{"type":{"package":"s","name":"T","optional":f'' @
     ''alse},"name":"B"}]}],"initializers":[{"name":"A","access":"'' @
     [CHR 0xF0, CHR 0x9F, CHR 0x94, CHR 0x93] @
     ''","errorType":{"package":"s","name":"T","optional":false},"genericArgu'' @
     ''ments":[],"arguments":[{"type":{"package":"s","name":"T","optional":fa'' @
     ''lse},"name":"B"}]}],"typeMethods":[],"superclass":{"package":"p","name'' @
     ''":"A"}},{"name": "A","conformsTo":[{"package":"s","name":"T","optional'' @
     ''":false}],"genericArguments":[{"name":"B","constraint":{"package":"s",'' @
     ''"name":"T","optional":false}}],"documentation":"A","methods":[],"initi'' @
     ''alizers":[],"typeMethods":[]}],"enums": [{"name": "A","conformsTo":[{"'' @
     ''package":"s","name":"T","optional":false}],"genericArguments":[{"name"'' @
     '':"B","constraint":{"package":"s","name":"T","optional":false}}],"docum'' @
     ''entation":"A","methods":[],"initializers":[],"typeMethods":[],"values"'' @
     '':[{"documentation":"B","value":"A"}]}],"protocols":[]}''\<close>

text \<open>What \<open>reportFunction\<close> writes for the function 100 of these declarations.\<close>

definition exampleFunctionOutput :: string where
  \<open>exampleFunctionOutput =
     ''{"name":"A","access":"'' @ [CHR 0xF0, CHR 0x9F, CHR 0x94, CHR 0x93] @
     ''","returnType":{"package":"s","name":"T","optional":false},"genericArg'' @
     ''uments":[],"arguments":[{"type":{"package":"s","name":"T","optional":f'' @
     ''alse},"name":"B"}]}''\<close>

text \<open>
  Calls for the concrete runs below. The primitive kinds are the three operand kinds. The
  table holds integer and floating-point addition and an optional-presence test; the
  declaration tables hold three protocols, of which 1 and 2 declare \<open>describe\<close> and 2
  alone declares \<open>print\<close>, and a value type 7 with a mutating method \<open>increment\<close> and a
  method \<open>value\<close> that does not mutate.
\<close>

definition exampleTable :: "OperandKind BuiltInEntry list" where
  "exampleTable =
    [\<lparr>operatorName = ''add'', receiverKind = IntegerOperand, argumentKinds = [IntegerOperand],
      operator = IntegerAdd\<rparr>,
     \<lparr>operatorName = ''add'', receiverKind = DoubleOperand, argumentKinds = [DoubleOperand],
      operator = DoubleAdd\<rparr>,
     \<lparr>operatorName = ''isNoValue'', receiverKind = IntegerOperand, argumentKinds = [],
      operator = IsNoValueLeft\<rparr>]"

definition bare :: "OperandKind \<Rightarrow> OperandKind TypeDescriptor" where
  "bare k = TypeDescriptor (Primitive k) False []"

definition exampleSignature :: "string \<Rightarrow> bool \<Rightarrow> ref \<Rightarrow> OperandKind MethodSignature" where
  "exampleSignature n m owner =
    \<lparr>signatureName = n, mutating = m, signatureAccess = PublicAccess, parameterTypes = [],
     signatureReturnType = bare IntegerOperand, genericParameters = [], owningType = owner\<rparr>"

definition exampleTables :: "OperandKind DeclarationTables" where
  "exampleTables =
    \<lparr>methodTable = (\<lambda>p n.
        if n = ''describe'' \<and> (p = 1 \<or> p = 2) then [exampleSignature n False p]
        else if n = ''print'' \<and> p = 2 then [exampleSignature n False p]
        else []),
     bestMatch = (\<lambda>candidates argTypes. hd candidates),
     postMatchChecks = arityCheck,
     findOther = (\<lambda>receiver n argTypes.
        if n = ''increment'' then Inr (StaticDispatch (exampleSignature n True 7))
        else if n = ''value'' then Inr (StaticDispatch (exampleSignature n False 7))
        else Inl MethodNotFound)\<rparr>"

definition otherTables :: "OperandKind DeclarationTables" where
  "otherTables =
    \<lparr>methodTable = (\<lambda>p n. []),
     bestMatch = (\<lambda>candidates argTypes. hd candidates),
     postMatchChecks = (\<lambda>signature argTypes. None),
     findOther = (\<lambda>receiver n argTypes. Inr (StaticDispatch (exampleSignature n False 9)))\<rparr>"

definition exampleCall ::
  "OperandKind TypeDescriptor \<Rightarrow> Storage \<Rightarrow> string \<Rightarrow> OperandKind TypeDescriptor list \<Rightarrow>
   OperandKind CallExpressionNode" where
  "exampleCall receiver location n argTypes =
    \<lparr>callee = \<lparr>analysed = Inr receiver, storage = location\<rparr>,
     callName = n,
     args = map (\<lambda>t. \<lparr>analysed = Inr t, storage = Temporary\<rparr>) argTypes,
     state = Unanalyzed\<rparr>"

definition optionalOf :: "OperandKind \<Rightarrow> OperandKind TypeDescriptor" where
  "optionalOf k = TypeDescriptor (Primitive k) True []"

definition valueTypeReceiver :: "OperandKind TypeDescriptor" where
  "valueTypeReceiver = TypeDescriptor (ValueTypeTag 7) False []"

definition intersection :: "OperandKind TypeDescriptor" where
  "intersection = TypeDescriptor (ProtocolIntersection [1, 2, 3]) False []"

section \<open>Theorems\<close>

subsection \<open>The enumeration of built-in operators\<close>

text \<open>
  Enumerators outside the six kinds of operation of the catalog's description: a
  conversion, a bitwise operation and the enumerator that stands for no operator; and an
  enumerator that names no primitive kind.
\<close>

theorem BuiltInType_outside_catalog:
  "category IntegerToDouble \<notin> set specCategories
   \<and> category IntegerLeftShift \<notin> set specCategories
   \<and> category None' \<notin> set specCategories
   \<and> operandKind Equal = None"
  by (simp add: specCategories_def)

lemma builtInTypes_all: "b \<in> set builtInTypes"
  by (cases b) (simp_all add: builtInTypes_def)

text \<open>
  C6, as amended: \<open>BuiltInType\<close> is a closed enumeration of exactly 35 enumerators
  without data: \<open>None\<close> (no operator); arithmetic on the two numeric kinds (multiply,
  add, subtract, divide, remainder); comparisons (greater, greater or equal, less, less
  or equal on both kinds, equal on the floating-point kind); six bitwise operations on
  integers (left shift, right shift, or, and, xor, not); the conversion of an integer to
  floating point; boolean and, or, negate; generic equality; raw store and load; the
  optional-is-absent tests in left and right position. The enumerators of the first
  three groups, the bitwise operations, the conversion and the boolean ones name one
  primitive kind; \<open>None\<close>, \<open>Equal\<close>, \<open>Store\<close>, \<open>Load\<close>, \<open>IsNoValueLeft\<close> and
  \<open>IsNoValueRight\<close> name none.
\<close>

theorem BuiltInType_catalog:
  "set builtInTypes = UNIV \<and> distinct builtInTypes \<and> length builtInTypes = 35
   \<and> (\<forall>b. (category b \<notin> set specCategories) =
            (b \<in> {None', IntegerLeftShift, IntegerRightShift, IntegerOr, IntegerAnd, IntegerXor,
                  IntegerToDouble, IntegerNot}))
   \<and> (\<forall>b. (operandKind b = None) = (b \<in> {None', Equal, Store, Load, IsNoValueLeft, IsNoValueRight}))
   \<and> filter (\<lambda>b. category b = NoOperator) builtInTypes = [None']
   \<and> filter (\<lambda>b. category b = Arithmetic) builtInTypes =
       [DoubleMultiply, DoubleAdd, DoubleSubstract, DoubleDivide, DoubleRemainder,
        IntegerMultiply, IntegerAdd, IntegerSubstract, IntegerDivide, IntegerRemainder]
   \<and> filter (\<lambda>b. category b = Comparison) builtInTypes =
       [DoubleGreater, DoubleGreaterOrEqual, DoubleLess, DoubleLessOrEqual, DoubleEqual,
        IntegerGreater, IntegerGreaterOrEqual, IntegerLess, IntegerLessOrEqual]
   \<and> filter (\<lambda>b. category b = Bitwise) builtInTypes =
       [IntegerLeftShift, IntegerRightShift, IntegerOr, IntegerAnd, IntegerXor, IntegerNot]
   \<and> filter (\<lambda>b. category b = Conversion) builtInTypes = [IntegerToDouble]
   \<and> filter (\<lambda>b. category b = BooleanLogic) builtInTypes = [BooleanAnd, BooleanOr, BooleanNegate]
   \<and> filter (\<lambda>b. category b = GenericEquality) builtInTypes = [Equal]
   \<and> filter (\<lambda>b. category b = RawStoreLoad) builtInTypes = [Store, Load]
   \<and> filter (\<lambda>b. category b = OptionalIsAbsent) builtInTypes = [IsNoValueLeft, IsNoValueRight]"
proof -
  have u: "set builtInTypes = UNIV"
    using builtInTypes_all by blast
  have d: "distinct builtInTypes \<and> length builtInTypes = 35"
    by (simp add: builtInTypes_def)
  have c: "(category b \<notin> set specCategories) =
            (b \<in> {None', IntegerLeftShift, IntegerRightShift, IntegerOr, IntegerAnd, IntegerXor,
                  IntegerToDouble, IntegerNot})" for b
    by (cases b) (simp_all add: specCategories_def)
  have k: "(operandKind b = None) = (b \<in> {None', Equal, Store, Load, IsNoValueLeft, IsNoValueRight})" for b
    by (cases b) simp_all
  have f: "filter (\<lambda>b. category b = NoOperator) builtInTypes = [None']
   \<and> filter (\<lambda>b. category b = Arithmetic) builtInTypes =
       [DoubleMultiply, DoubleAdd, DoubleSubstract, DoubleDivide, DoubleRemainder,
        IntegerMultiply, IntegerAdd, IntegerSubstract, IntegerDivide, IntegerRemainder]
   \<and> filter (\<lambda>b. category b = Comparison) builtInTypes =
       [DoubleGreater, DoubleGreaterOrEqual, DoubleLess, DoubleLessOrEqual, DoubleEqual,
        IntegerGreater, IntegerGreaterOrEqual, IntegerLess, IntegerLessOrEqual]
   \<and> filter (\<lambda>b. category b = Bitwise) builtInTypes =
       [IntegerLeftShift, IntegerRightShift, IntegerOr, IntegerAnd, IntegerXor, IntegerNot]
   \<and> filter (\<lambda>b. category b = Conversion) builtInTypes = [IntegerToDouble]
   \<and> filter (\<lambda>b. category b = BooleanLogic) builtInTypes = [BooleanAnd, BooleanOr, BooleanNegate]
   \<and> filter (\<lambda>b. category b = GenericEquality) builtInTypes = [Equal]
   \<and> filter (\<lambda>b. category b = RawStoreLoad) builtInTypes = [Store, Load]
   \<and> filter (\<lambda>b. category b = OptionalIsAbsent) builtInTypes = [IsNoValueLeft, IsNoValueRight]"
    by (simp add: builtInTypes_def)
  from u d c k f show ?thesis by blast
qed

subsection \<open>The built-in phase\<close>

lemma find_unique:
  assumes d: "distinct (map key xs)" and e: "e \<in> set xs" and p: "P e"
    and k: "\<forall>x \<in> set xs. P x \<longrightarrow> key x = key e"
  shows "find P xs = Some e"
  using d e k
proof (induction xs)
  case Nil
  then show ?case by simp
next
  case (Cons x xs)
  show ?case
  proof (cases "P x")
    case True
    with Cons.prems(3) have kx: "key x = key e" by simp
    have "x = e"
    proof (rule ccontr)
      assume "x \<noteq> e"
      with Cons.prems(2) have "e \<in> set xs" by simp
      then have "key e \<in> set (map key xs)" by simp
      with Cons.prems(1) kx show False by simp
    qed
    with True show ?thesis by simp
  next
    case False
    with Cons.prems(2) p have m: "e \<in> set xs" by auto
    from Cons.prems(1) have d': "distinct (map key xs)" by simp
    from Cons.prems(3) have k': "\<forall>x \<in> set xs. P x \<longrightarrow> key x = key e" by simp
    from Cons.IH [OF d' m k'] False show ?thesis by simp
  qed
qed

lemma entryMatches_key:
  assumes e: "entryMatches e n receiver argTypes" and x: "entryMatches x n receiver argTypes"
  shows "(operatorName x, receiverKind x, argumentKinds x) = (operatorName e, receiverKind e, argumentKinds e)"
proof -
  from e have e1: "operatorName e = n" and e2: "primitiveKind receiver = Some (receiverKind e)"
    and e3: "map primitiveKind argTypes = map Some (argumentKinds e)"
    unfolding entryMatches_def by blast+
  from x have x1: "operatorName x = n" and x2: "primitiveKind receiver = Some (receiverKind x)"
    and x3: "map primitiveKind argTypes = map Some (argumentKinds x)"
    unfolding entryMatches_def by blast+
  from e1 x1 have n: "operatorName x = operatorName e" by simp
  from e2 x2 have r: "receiverKind x = receiverKind e" by (metis option.inject)
  from e3 x3 have "map Some (argumentKinds x) = map Some (argumentKinds e)" by metis
  then have a: "argumentKinds x = argumentKinds e"
    by (simp add: inj_map_eq_map)
  from n r a show ?thesis by (simp only:)
qed

lemma builtIn_bare_match:
  assumes u: "tableUnique table" and e: "e \<in> set table"
    and m: "entryMatches e n receiver argTypes"
    and b: "\<not> isOptional receiver" "genericArguments receiver = []"
  shows "builtIn table receiver n argTypes = Some (operator e)"
proof -
  from m have p: "primitiveKind receiver \<noteq> None" by (simp add: entryMatches_def)
  have d: "distinct (map (\<lambda>e. (operatorName e, receiverKind e, argumentKinds e)) table)"
    using u by (simp add: tableUnique_def)
  have el: "eligible e n receiver argTypes"
    using m b by (simp add: eligible_def)
  have k: "\<forall>x \<in> set table. eligible x n receiver argTypes \<longrightarrow>
      (operatorName x, receiverKind x, argumentKinds x) =
      (operatorName e, receiverKind e, argumentKinds e)"
    using entryMatches_key [OF m] unfolding eligible_def by blast
  have "find (\<lambda>e. eligible e n receiver argTypes) table = Some e"
    using d e el k
    by (rule find_unique [where key = "\<lambda>e. (operatorName e, receiverKind e, argumentKinds e)"
                          and P = "\<lambda>e. eligible e n receiver argTypes"])
  with p b show ?thesis by (simp add: builtIn_def)
qed

lemma builtIn_no_match:
  assumes "\<And>e. e \<in> set table \<Longrightarrow> \<not> eligible e n receiver argTypes"
  shows "builtIn table receiver n argTypes = None"
proof -
  have "find (\<lambda>e. eligible e n receiver argTypes) table = None"
    using assms by (simp add: find_None_iff)
  then show ?thesis by (simp add: builtIn_def)
qed

lemma builtIn_Some:
  assumes "builtIn table receiver n argTypes = Some op"
  shows "\<exists>e \<in> set table. operator e = op \<and> eligible e n receiver argTypes \<and>
      primitiveKind receiver \<noteq> None \<and> genericArguments receiver = []"
proof -
  from assms have g: "primitiveKind receiver \<noteq> None \<and> genericArguments receiver = []"
    by (simp add: builtIn_def split: if_splits)
  with assms obtain e where
    f: "find (\<lambda>e. eligible e n receiver argTypes) table = Some e" and o: "operator e = op"
    by (auto simp: builtIn_def)
  from f have "e \<in> set table" "eligible e n receiver argTypes"
    by (auto simp: find_Some_iff)
  with o g show ?thesis by blast
qed

lemma analyseMethodCall_builtIn:
  assumes "analysed (callee node) = Inr receiver" "analyseArguments (args node) = Inr argTypes"
    "builtIn table receiver (callName node) argTypes = Some op"
  shows "analyseMethodCall table decls node = BuiltInMatched op"
  unfolding analyseMethodCall_def by (simp only: assms sum.case option.case)

lemma analyseMethodCall_dispatch:
  assumes "analysed (callee node) = Inr receiver" "analyseArguments (args node) = Inr argTypes"
    "builtIn table receiver (callName node) argTypes = None"
  shows "analyseMethodCall table decls node = resolveDispatch decls node receiver argTypes"
  unfolding analyseMethodCall_def by (simp only: assms sum.case option.case)

text \<open>
  C1: a call whose receiver is a bare primitive and that matches an entry of the
  (unique-keyed) table is resolved to that entry's intrinsic, whatever the declaration
  tables and the resolver say: the Signature Resolver has no part in the decision. If
  no entry matches, the built-in phase yields no error and the decision is the one of
  ordinary resolution.
\<close>

theorem builtIn_short_circuits:
  "(tableUnique table \<and> e \<in> set table \<and>
    analysed (callee node) = Inr receiver \<and> analyseArguments (args node) = Inr argTypes \<and>
    \<not> isOptional receiver \<and> genericArguments receiver = [] \<and>
    entryMatches e (callName node) receiver argTypes \<longrightarrow>
      analyseMethodCall table decls node = BuiltInMatched (operator e) \<and>
      analyseMethodCall table decls' node = BuiltInMatched (operator e))
   \<and> (analysed (callee node) = Inr receiver \<and> analyseArguments (args node) = Inr argTypes \<and>
      (\<forall>x \<in> set table. \<not> entryMatches x (callName node) receiver argTypes) \<longrightarrow>
      builtIn table receiver (callName node) argTypes = None \<and>
      analyseMethodCall table decls node = resolveDispatch decls node receiver argTypes)"
proof (intro conjI impI)
  assume h: "tableUnique table \<and> e \<in> set table \<and>
    analysed (callee node) = Inr receiver \<and> analyseArguments (args node) = Inr argTypes \<and>
    \<not> isOptional receiver \<and> genericArguments receiver = [] \<and>
    entryMatches e (callName node) receiver argTypes"
  then have c: "analysed (callee node) = Inr receiver" and a: "analyseArguments (args node) = Inr argTypes"
    by blast+
  from h have "builtIn table receiver (callName node) argTypes = Some (operator e)"
    by (intro builtIn_bare_match) blast+
  then show "analyseMethodCall table decls node = BuiltInMatched (operator e)"
    and "analyseMethodCall table decls' node = BuiltInMatched (operator e)"
    by (rule analyseMethodCall_builtIn [OF c a])+
next
  assume h: "analysed (callee node) = Inr receiver \<and> analyseArguments (args node) = Inr argTypes \<and>
      (\<forall>x \<in> set table. \<not> entryMatches x (callName node) receiver argTypes)"
  then have c: "analysed (callee node) = Inr receiver" and a: "analyseArguments (args node) = Inr argTypes"
    and n: "\<And>x. x \<in> set table \<Longrightarrow> \<not> entryMatches x (callName node) receiver argTypes"
    by blast+
  show b: "builtIn table receiver (callName node) argTypes = None"
    by (rule builtIn_no_match) (simp add: eligible_def n)
  show "analyseMethodCall table decls node = resolveDispatch decls node receiver argTypes"
    by (rule analyseMethodCall_dispatch [OF c a b])
qed

lemma exampleTable_unique: "tableUnique exampleTable"
  by (simp add: tableUnique_def exampleTable_def)

theorem builtIn_short_circuits_witness:
  "analyseMethodCall exampleTable exampleTables
      (exampleCall (bare IntegerOperand) Temporary ''add'' [bare IntegerOperand]) =
     BuiltInMatched IntegerAdd
   \<and> analyseMethodCall exampleTable otherTables
      (exampleCall (bare IntegerOperand) Temporary ''add'' [bare IntegerOperand]) =
     BuiltInMatched IntegerAdd
   \<and> builtIn exampleTable (bare DoubleOperand) ''add'' [bare IntegerOperand] = None
   \<and> analyseMethodCall exampleTable exampleTables
      (exampleCall (bare DoubleOperand) Temporary ''add'' [bare IntegerOperand]) =
     Failed MethodNotFound
   \<and> analyseMethodCall exampleTable otherTables
      (exampleCall (bare DoubleOperand) Temporary ''add'' [bare IntegerOperand]) =
     DispatchResolved (StaticDispatch (exampleSignature ''add'' False 9))"
proof -
  let ?e = "\<lparr>operatorName = ''add'', receiverKind = IntegerOperand, argumentKinds = [IntegerOperand],
      operator = IntegerAdd\<rparr>"
  let ?n = "exampleCall (bare IntegerOperand) Temporary ''add'' [bare IntegerOperand]"
  let ?m = "exampleCall (bare DoubleOperand) Temporary ''add'' [bare IntegerOperand]"
  have i: "?e \<in> set exampleTable"
    by (simp add: exampleTable_def)
  have n: "analysed (callee ?n) = Inr (bare IntegerOperand) \<and>
      analyseArguments (args ?n) = Inr [bare IntegerOperand]"
    by (simp add: exampleCall_def)
  have b: "\<not> isOptional (bare IntegerOperand) \<and> genericArguments (bare IntegerOperand) = []"
    by (simp add: bare_def)
  have e: "entryMatches ?e (callName ?n) (bare IntegerOperand) [bare IntegerOperand]"
    by (simp add: exampleCall_def bare_def entryMatches_def primitiveKind_def)
  have m: "analysed (callee ?m) = Inr (bare DoubleOperand) \<and>
      analyseArguments (args ?m) = Inr [bare IntegerOperand]"
    by (simp add: exampleCall_def)
  have x: "\<forall>x \<in> set exampleTable. \<not> entryMatches x (callName ?m) (bare DoubleOperand) [bare IntegerOperand]"
    by (simp add: exampleTable_def exampleCall_def bare_def entryMatches_def primitiveKind_def)
  have r1: "resolveDispatch exampleTables ?m (bare DoubleOperand) [bare IntegerOperand] =
      Failed MethodNotFound"
    by (simp add: resolveDispatch_def findMethod_def exampleTables_def exampleCall_def bare_def)
  have r2: "resolveDispatch otherTables ?m (bare DoubleOperand) [bare IntegerOperand] =
      DispatchResolved (StaticDispatch (exampleSignature ''add'' False 9))"
    by (simp add: resolveDispatch_def findMethod_def otherTables_def exampleCall_def bare_def
          checkMutation_def exampleSignature_def)
  note t1 = builtIn_short_circuits [of exampleTable ?e ?n "bare IntegerOperand" "[bare IntegerOperand]"
      exampleTables otherTables]
  note t2 = builtIn_short_circuits [of exampleTable ?e ?m "bare DoubleOperand" "[bare IntegerOperand]"
      exampleTables otherTables]
  note t3 = builtIn_short_circuits [of exampleTable ?e ?m "bare DoubleOperand" "[bare IntegerOperand]"
      otherTables exampleTables]
  from t1 exampleTable_unique i n b e
  have a1: "analyseMethodCall exampleTable exampleTables ?n = BuiltInMatched (operator ?e)"
    and a2: "analyseMethodCall exampleTable otherTables ?n = BuiltInMatched (operator ?e)"
    by blast+
  from t2 m x
  have a3: "builtIn exampleTable (bare DoubleOperand) (callName ?m) [bare IntegerOperand] = None"
    and a4: "analyseMethodCall exampleTable exampleTables ?m =
      resolveDispatch exampleTables ?m (bare DoubleOperand) [bare IntegerOperand]"
    by blast+
  from t3 m x
  have a5: "analyseMethodCall exampleTable otherTables ?m =
      resolveDispatch otherTables ?m (bare DoubleOperand) [bare IntegerOperand]"
    by blast
  have c: "callName ?m = ''add''"
    by (simp add: exampleCall_def)
  from a1 a2 a3 a4 a5 show ?thesis
    by (simp add: r1 r2 c)
qed

lemma find_exists:
  assumes "x \<in> set xs" "P x"
  shows "\<exists>y. find P xs = Some y \<and> P y \<and> y \<in> set xs"
proof (cases "find P xs")
  case None
  with assms show ?thesis by (auto simp: find_None_iff)
next
  case (Some y)
  then show ?thesis by (auto simp: find_Some_iff)
qed

text \<open>
  C7: the table answers only for a receiver of primitive kind without generic arguments,
  with an entry that matches the call; for an optional receiver the answer is one of
  \<open>IsNoValueLeft\<close> and \<open>IsNoValueRight\<close>, which do match an optional receiver, and
  every other call on an optional receiver falls through to dispatch resolution.
\<close>

theorem builtIn_optional_receiver:
  "(builtIn table receiver n argTypes = Some op \<longrightarrow>
      primitiveKind receiver \<noteq> None \<and> genericArguments receiver = [] \<and>
      (\<exists>x. x \<in> set table \<and> operator x = op \<and> entryMatches x n receiver argTypes) \<and>
      (isOptional receiver \<longrightarrow> op = IsNoValueLeft \<or> op = IsNoValueRight))
   \<and> (primitiveKind receiver = None \<or> genericArguments receiver \<noteq> [] \<longrightarrow>
      builtIn table receiver n argTypes = None)
   \<and> (isOptional receiver \<and>
      analysed (callee node) = Inr receiver \<and> analyseArguments (args node) = Inr argTypes \<and>
      (\<forall>x \<in> set table. entryMatches x (callName node) receiver argTypes \<longrightarrow>
         operator x \<noteq> IsNoValueLeft \<and> operator x \<noteq> IsNoValueRight) \<longrightarrow>
      analyseMethodCall table decls node = resolveDispatch decls node receiver argTypes)
   \<and> (isOptional receiver \<and> primitiveKind receiver \<noteq> None \<and> genericArguments receiver = [] \<and>
      e \<in> set table \<and> entryMatches e n receiver argTypes \<and>
      (operator e = IsNoValueLeft \<or> operator e = IsNoValueRight) \<longrightarrow>
      builtIn table receiver n argTypes = Some IsNoValueLeft \<or>
      builtIn table receiver n argTypes = Some IsNoValueRight)"
proof (intro conjI impI)
  assume s: "builtIn table receiver n argTypes = Some op"
  from builtIn_Some [OF s] obtain x where x: "x \<in> set table" "operator x = op"
    "eligible x n receiver argTypes" and p: "primitiveKind receiver \<noteq> None"
    and g: "genericArguments receiver = []"
    by blast
  show "primitiveKind receiver \<noteq> None" by (rule p)
  show "genericArguments receiver = []" by (rule g)
  from x show "\<exists>x. x \<in> set table \<and> operator x = op \<and> entryMatches x n receiver argTypes"
    unfolding eligible_def by blast
  assume "isOptional receiver"
  with x show "op = IsNoValueLeft \<or> op = IsNoValueRight"
    by (simp add: eligible_def optionalPresence_def)
next
  assume "primitiveKind receiver = None \<or> genericArguments receiver \<noteq> []"
  then show "builtIn table receiver n argTypes = None"
    by (auto simp: builtIn_def)
next
  assume h: "isOptional receiver \<and>
      analysed (callee node) = Inr receiver \<and> analyseArguments (args node) = Inr argTypes \<and>
      (\<forall>x \<in> set table. entryMatches x (callName node) receiver argTypes \<longrightarrow>
         operator x \<noteq> IsNoValueLeft \<and> operator x \<noteq> IsNoValueRight)"
  then have c: "analysed (callee node) = Inr receiver" and a: "analyseArguments (args node) = Inr argTypes"
    by blast+
  have "\<And>x. x \<in> set table \<Longrightarrow> \<not> eligible x (callName node) receiver argTypes"
    using h by (auto simp: eligible_def optionalPresence_def)
  then have "builtIn table receiver (callName node) argTypes = None"
    by (rule builtIn_no_match)
  from analyseMethodCall_dispatch [OF c a this]
  show "analyseMethodCall table decls node = resolveDispatch decls node receiver argTypes" .
next
  assume h: "isOptional receiver \<and> primitiveKind receiver \<noteq> None \<and> genericArguments receiver = [] \<and>
      e \<in> set table \<and> entryMatches e n receiver argTypes \<and>
      (operator e = IsNoValueLeft \<or> operator e = IsNoValueRight)"
  then have "e \<in> set table" "eligible e n receiver argTypes"
    by (auto simp: eligible_def optionalPresence_def)
  from find_exists [of e table "\<lambda>x. eligible x n receiver argTypes", OF this]
  obtain y where y: "find (\<lambda>x. eligible x n receiver argTypes) table = Some y"
    "eligible y n receiver argTypes"
    by blast
  with h have "optionalPresence (operator y)"
    by (simp add: eligible_def)
  with h y show "builtIn table receiver n argTypes = Some IsNoValueLeft \<or>
      builtIn table receiver n argTypes = Some IsNoValueRight"
    by (auto simp: builtIn_def optionalPresence_def)
qed

theorem builtIn_optional_receiver_witness:
  "builtIn exampleTable (optionalOf IntegerOperand) ''isNoValue'' [] = Some IsNoValueLeft
   \<and> builtIn exampleTable (optionalOf IntegerOperand) ''add'' [bare IntegerOperand] = None
   \<and> builtIn exampleTable valueTypeReceiver ''add'' [bare IntegerOperand] = None
   \<and> analyseMethodCall exampleTable exampleTables
        (exampleCall (optionalOf IntegerOperand) Temporary ''add'' [bare IntegerOperand]) =
      Failed MethodNotFound"
proof -
  let ?r = "optionalOf IntegerOperand"
  let ?e = "\<lparr>operatorName = ''isNoValue'', receiverKind = IntegerOperand, argumentKinds = [],
      operator = IsNoValueLeft\<rparr>"
  let ?n = "exampleCall ?r Temporary ''add'' [bare IntegerOperand]"
  have o: "isOptional ?r \<and> primitiveKind ?r \<noteq> None \<and> genericArguments ?r = []"
    by (simp add: optionalOf_def primitiveKind_def)
  have i: "?e \<in> set exampleTable \<and> entryMatches ?e ''isNoValue'' ?r [] \<and>
      (operator ?e = IsNoValueLeft \<or> operator ?e = IsNoValueRight)"
    by (simp add: exampleTable_def entryMatches_def optionalOf_def primitiveKind_def)
  have v: "primitiveKind valueTypeReceiver = None \<or> genericArguments valueTypeReceiver \<noteq> []"
    by (simp add: valueTypeReceiver_def primitiveKind_def)
  have n: "analysed (callee ?n) = Inr ?r \<and> analyseArguments (args ?n) = Inr [bare IntegerOperand]"
    by (simp add: exampleCall_def)
  have x: "\<forall>x \<in> set exampleTable. entryMatches x (callName ?n) ?r [bare IntegerOperand] \<longrightarrow>
         operator x \<noteq> IsNoValueLeft \<and> operator x \<noteq> IsNoValueRight"
    by (simp add: exampleTable_def exampleCall_def entryMatches_def)
  have r: "resolveDispatch exampleTables ?n ?r [bare IntegerOperand] = Failed MethodNotFound"
    by (simp add: resolveDispatch_def findMethod_def exampleTables_def exampleCall_def optionalOf_def)
  note t1 = builtIn_optional_receiver [of exampleTable ?r "''isNoValue''" "[]" _ ?n exampleTables ?e]
  note t2 = builtIn_optional_receiver [of exampleTable ?r "''add''" "[bare IntegerOperand]" _ ?n exampleTables ?e]
  note t3 = builtIn_optional_receiver [of exampleTable valueTypeReceiver "''add''" "[bare IntegerOperand]" _ ?n exampleTables ?e]
  from t1 o i have a: "builtIn exampleTable ?r ''isNoValue'' [] = Some IsNoValueLeft \<or>
      builtIn exampleTable ?r ''isNoValue'' [] = Some IsNoValueRight"
    by blast
  have nr: "builtIn exampleTable ?r ''isNoValue'' [] \<noteq> Some IsNoValueRight"
  proof
    assume s: "builtIn exampleTable ?r ''isNoValue'' [] = Some IsNoValueRight"
    from t1 [of IsNoValueRight] s have "\<exists>x. x \<in> set exampleTable \<and> operator x = IsNoValueRight \<and>
        entryMatches x ''isNoValue'' ?r []"
      by blast
    then show False by (auto simp: exampleTable_def)
  qed
  from a nr have a1: "builtIn exampleTable ?r ''isNoValue'' [] = Some IsNoValueLeft"
    by blast
  from t2 o n x have a4: "analyseMethodCall exampleTable exampleTables ?n =
      resolveDispatch exampleTables ?n ?r [bare IntegerOperand]"
    by blast
  have a2: "builtIn exampleTable ?r ''add'' [bare IntegerOperand] = None"
  proof (cases "builtIn exampleTable ?r ''add'' [bare IntegerOperand]")
    case None
    then show ?thesis .
  next
    case (Some op)
    with t2 [of op] o have "\<exists>x. x \<in> set exampleTable \<and> operator x = op \<and>
        entryMatches x ''add'' ?r [bare IntegerOperand]" and "op = IsNoValueLeft \<or> op = IsNoValueRight"
      by blast+
    then show ?thesis by (auto simp: exampleTable_def entryMatches_def)
  qed
  from t3 v have a3: "builtIn exampleTable valueTypeReceiver ''add'' [bare IntegerOperand] = None"
    by blast
  from a1 a2 a3 a4 r show ?thesis by simp
qed

subsection \<open>Protocol intersections\<close>

lemma filter_single:
  assumes "distinct xs" "p \<in> set xs" "P p" "\<forall>q \<in> set xs. P q \<longrightarrow> q = p"
  shows "filter P xs = [p]"
  using assms(1,2,4)
proof (induction xs)
  case Nil
  then show ?case by simp
next
  case (Cons x xs)
  show ?case
  proof (cases "x = p")
    case True
    with Cons.prems(1) have "p \<notin> set xs" by simp
    with Cons.prems(3) have "\<forall>q \<in> set xs. \<not> P q" by auto
    then have "filter P xs = []" by (simp add: filter_empty_conv)
    with True assms(3) show ?thesis by simp
  next
    case False
    with Cons.prems(3) have n: "\<not> P x" by auto
    from False Cons.prems(2) have m: "p \<in> set xs" by simp
    from Cons.prems(1) have d: "distinct xs" by simp
    from Cons.prems(3) have k: "\<forall>q \<in> set xs. P q \<longrightarrow> q = p" by simp
    from Cons.IH [OF d m k] n show ?thesis by simp
  qed
qed

lemma filter_two:
  assumes "p \<in> set xs" "q \<in> set xs" "p \<noteq> q" "P p" "P q"
  shows "\<exists>a b rest. filter P xs = a # b # rest"
proof -
  have "{p, q} \<subseteq> set (filter P xs)"
    using assms by simp
  then have "card {p, q} \<le> card (set (filter P xs))"
    by (intro card_mono) simp_all
  also have "\<dots> \<le> length (filter P xs)"
    by (rule card_length)
  finally have "2 \<le> length (filter P xs)"
    using assms(3) by simp
  then show ?thesis
    by (cases "filter P xs"; cases "tl (filter P xs)") auto
qed

lemma intersection_no_builtIn:
  "tag receiver = ProtocolIntersection members \<Longrightarrow> builtIn table receiver n argTypes = None"
  by (simp add: builtIn_def primitiveKind_def)

lemma intersection_call:
  assumes "analysed (callee node) = Inr receiver" "tag receiver = ProtocolIntersection members"
    "analyseArguments (args node) = Inr argTypes"
  shows "analyseMethodCall table decls node =
    (case analyseMultiProtocolCall decls (callName node) members argTypes of
       Inl err \<Rightarrow> Failed err
     | Inr found \<Rightarrow>
        (case checkMutation (callee node) (resolvedSignature found) of
           Inl err \<Rightarrow> Failed err
         | Inr u \<Rightarrow>
            (case postMatchChecks decls (resolvedSignature found) argTypes of
               Some err \<Rightarrow> Failed err
             | None \<Rightarrow> DispatchResolved found)))"
  using analyseMethodCall_dispatch [OF assms(1) assms(3) intersection_no_builtIn [OF assms(2)]]
  by (simp add: resolveDispatch_def findMethod_def assms(2))

text \<open>
  C2: a call on a receiver that is a protocol intersection (such a receiver never
  matches the built-in table). If exactly one member declares the called name, the
  method found is that member's, as \<open>ProtocolDispatch\<close> tagged with the member and not with
  the intersection: a call that resolves has this decision and no other, and the call
  resolves when the mutation check and the checks that follow a name match pass. If two
  members declare the name the call fails with \<open>AmbiguousProtocolMethod\<close>, whatever the
  signatures, the storage of the receiver and the checks; if no member declares it the
  call fails with \<open>MethodNotFound\<close>.
\<close>

theorem analyseMultiProtocolCall_cases:
  "(analysed (callee node) = Inr receiver \<and> tag receiver = ProtocolIntersection members \<and>
    analyseArguments (args node) = Inr argTypes \<and>
    distinct members \<and> p \<in> set members \<and> declaresMethod decls (callName node) p \<and>
    (\<forall>q \<in> set members. declaresMethod decls (callName node) q \<longrightarrow> q = p) \<longrightarrow>
      findMethod decls receiver (callName node) argTypes =
        Inr (ProtocolDispatch (bestMatch decls (methodTable decls p (callName node)) argTypes) p)
      \<and> (\<forall>resolved. analyseMethodCall table decls node = DispatchResolved resolved \<longrightarrow>
           resolved = ProtocolDispatch (bestMatch decls (methodTable decls p (callName node)) argTypes) p)
      \<and> (checkMutation (callee node)
              (bestMatch decls (methodTable decls p (callName node)) argTypes) = Inr () \<and>
          postMatchChecks decls
              (bestMatch decls (methodTable decls p (callName node)) argTypes) argTypes = None \<longrightarrow>
          analyseMethodCall table decls node =
            DispatchResolved
              (ProtocolDispatch (bestMatch decls (methodTable decls p (callName node)) argTypes) p))
      \<and> analyseMethodCall table decls node =
          (case checkMutation (callee node)
                  (bestMatch decls (methodTable decls p (callName node)) argTypes) of
             Inl err \<Rightarrow> Failed err
           | Inr u \<Rightarrow>
              (case postMatchChecks decls
                      (bestMatch decls (methodTable decls p (callName node)) argTypes) argTypes of
                 Some err \<Rightarrow> Failed err
               | None \<Rightarrow> DispatchResolved
                   (ProtocolDispatch (bestMatch decls (methodTable decls p (callName node)) argTypes) p))))
   \<and> (analysed (callee node) = Inr receiver \<and> tag receiver = ProtocolIntersection members \<and>
      analyseArguments (args node) = Inr argTypes \<and>
      p \<in> set members \<and> q \<in> set members \<and> p \<noteq> q \<and>
      declaresMethod decls (callName node) p \<and> declaresMethod decls (callName node) q \<longrightarrow>
      findMethod decls receiver (callName node) argTypes = Inl AmbiguousProtocolMethod
      \<and> analyseMethodCall table decls node = Failed AmbiguousProtocolMethod)
   \<and> (analysed (callee node) = Inr receiver \<and> tag receiver = ProtocolIntersection members \<and>
      analyseArguments (args node) = Inr argTypes \<and>
      (\<forall>q \<in> set members. \<not> declaresMethod decls (callName node) q) \<longrightarrow>
      findMethod decls receiver (callName node) argTypes = Inl MethodNotFound
      \<and> analyseMethodCall table decls node = Failed MethodNotFound)"
proof -
  let ?sig = "bestMatch decls (methodTable decls p (callName node)) argTypes"
  let ?outcome = "case checkMutation (callee node) ?sig of
             Inl err \<Rightarrow> Failed err
           | Inr u \<Rightarrow>
              (case postMatchChecks decls ?sig argTypes of
                 Some err \<Rightarrow> Failed err
               | None \<Rightarrow> DispatchResolved (ProtocolDispatch ?sig p))"
  have one: "findMethod decls receiver (callName node) argTypes = Inr (ProtocolDispatch ?sig p) \<and>
      (\<forall>resolved. analyseMethodCall table decls node = DispatchResolved resolved \<longrightarrow>
           resolved = ProtocolDispatch ?sig p) \<and>
      (checkMutation (callee node) ?sig = Inr () \<and> postMatchChecks decls ?sig argTypes = None \<longrightarrow>
          analyseMethodCall table decls node = DispatchResolved (ProtocolDispatch ?sig p)) \<and>
      analyseMethodCall table decls node = ?outcome"
    if h: "analysed (callee node) = Inr receiver \<and> tag receiver = ProtocolIntersection members \<and>
      analyseArguments (args node) = Inr argTypes \<and>
      distinct members \<and> p \<in> set members \<and> declaresMethod decls (callName node) p \<and>
      (\<forall>q \<in> set members. declaresMethod decls (callName node) q \<longrightarrow> q = p)"
  proof -
    from h have "filter (declaresMethod decls (callName node)) members = [p]"
      by (intro filter_single) blast+
    then have m: "analyseMultiProtocolCall decls (callName node) members argTypes =
        Inr (ProtocolDispatch ?sig p)"
      by (simp add: analyseMultiProtocolCall_def)
    from h have c: "analysed (callee node) = Inr receiver"
      and t: "tag receiver = ProtocolIntersection members"
      and a: "analyseArguments (args node) = Inr argTypes"
      by blast+
    from t m have f: "findMethod decls receiver (callName node) argTypes = Inr (ProtocolDispatch ?sig p)"
      by (simp add: findMethod_def)
    from intersection_call [OF c t a, of table decls] m
    have e: "analyseMethodCall table decls node = ?outcome"
      by (simp split: sum.splits option.splits)
    have r: "resolved = ProtocolDispatch ?sig p"
      if "analyseMethodCall table decls node = DispatchResolved resolved" for resolved
      using that e by (simp split: sum.splits option.splits)
    have s: "analyseMethodCall table decls node = DispatchResolved (ProtocolDispatch ?sig p)"
      if "checkMutation (callee node) ?sig = Inr () \<and> postMatchChecks decls ?sig argTypes = None"
      using that e by simp
    from f r s e show ?thesis by blast
  qed
  have two: "findMethod decls receiver (callName node) argTypes = Inl AmbiguousProtocolMethod \<and>
      analyseMethodCall table decls node = Failed AmbiguousProtocolMethod"
    if h: "analysed (callee node) = Inr receiver \<and> tag receiver = ProtocolIntersection members \<and>
      analyseArguments (args node) = Inr argTypes \<and>
      p \<in> set members \<and> q \<in> set members \<and> p \<noteq> q \<and>
      declaresMethod decls (callName node) p \<and> declaresMethod decls (callName node) q"
  proof -
    from h have "\<exists>a b rest. filter (declaresMethod decls (callName node)) members = a # b # rest"
      by (intro filter_two [of p members q]) blast+
    then have m: "analyseMultiProtocolCall decls (callName node) members argTypes =
        Inl AmbiguousProtocolMethod"
      by (auto simp: analyseMultiProtocolCall_def)
    from h have c: "analysed (callee node) = Inr receiver"
      and t: "tag receiver = ProtocolIntersection members"
      and a: "analyseArguments (args node) = Inr argTypes"
      by blast+
    from t m have "findMethod decls receiver (callName node) argTypes = Inl AmbiguousProtocolMethod"
      by (simp add: findMethod_def)
    moreover from intersection_call [OF c t a, of table decls] m
    have "analyseMethodCall table decls node = Failed AmbiguousProtocolMethod"
      by simp
    ultimately show ?thesis by blast
  qed
  have none: "findMethod decls receiver (callName node) argTypes = Inl MethodNotFound \<and>
      analyseMethodCall table decls node = Failed MethodNotFound"
    if h: "analysed (callee node) = Inr receiver \<and> tag receiver = ProtocolIntersection members \<and>
      analyseArguments (args node) = Inr argTypes \<and>
      (\<forall>q \<in> set members. \<not> declaresMethod decls (callName node) q)"
  proof -
    from h have "filter (declaresMethod decls (callName node)) members = []"
      by (simp add: filter_empty_conv)
    then have m: "analyseMultiProtocolCall decls (callName node) members argTypes = Inl MethodNotFound"
      by (simp add: analyseMultiProtocolCall_def)
    from h have c: "analysed (callee node) = Inr receiver"
      and t: "tag receiver = ProtocolIntersection members"
      and a: "analyseArguments (args node) = Inr argTypes"
      by blast+
    from t m have "findMethod decls receiver (callName node) argTypes = Inl MethodNotFound"
      by (simp add: findMethod_def)
    moreover from intersection_call [OF c t a, of table decls] m
    have "analyseMethodCall table decls node = Failed MethodNotFound"
      by simp
    ultimately show ?thesis by blast
  qed
  show ?thesis
    by (rule conjI [OF impI [OF one] conjI [OF impI [OF two] impI [OF none]]])
qed

theorem analyseMultiProtocolCall_cases_witness:
  "analyseMethodCall exampleTable exampleTables (exampleCall intersection Temporary ''print'' []) =
     DispatchResolved (ProtocolDispatch (exampleSignature ''print'' False 2) 2)
   \<and> analyseMethodCall exampleTable exampleTables
        (exampleCall intersection Temporary ''print'' [bare IntegerOperand]) =
     Failed ArityMismatch
   \<and> analyseMethodCall exampleTable exampleTables (exampleCall intersection Temporary ''describe'' []) =
     Failed AmbiguousProtocolMethod
   \<and> analyseMethodCall exampleTable exampleTables (exampleCall intersection Temporary ''missing'' []) =
     Failed MethodNotFound"
proof -
  let ?print = "exampleCall intersection Temporary ''print'' []"
  let ?print1 = "exampleCall intersection Temporary ''print'' [bare IntegerOperand]"
  let ?describe = "exampleCall intersection Temporary ''describe'' []"
  let ?missing = "exampleCall intersection Temporary ''missing'' []"
  have n: "analysed (callee (exampleCall intersection Temporary n argTypes)) = Inr intersection \<and>
      tag intersection = ProtocolIntersection [1, 2, 3] \<and>
      analyseArguments (args (exampleCall intersection Temporary n argTypes)) = Inr argTypes \<and>
      callName (exampleCall intersection Temporary n argTypes) = n"
    if "argTypes = [] \<or> argTypes = [bare IntegerOperand]" for n argTypes
    using that by (auto simp: exampleCall_def intersection_def)
  have d: "distinct [1, 2, 3 :: nat]" by simp
  have p: "(2 :: nat) \<in> set [1, 2, 3] \<and> declaresMethod exampleTables ''print'' 2 \<and>
      (\<forall>q \<in> set [1, 2, 3]. declaresMethod exampleTables ''print'' q \<longrightarrow> q = 2)"
    by (simp add: declaresMethod_def exampleTables_def)
  have a: "(1 :: nat) \<in> set [1, 2, 3] \<and> (2 :: nat) \<in> set [1, 2, 3] \<and> (1 :: nat) \<noteq> 2 \<and>
      declaresMethod exampleTables ''describe'' 1 \<and> declaresMethod exampleTables ''describe'' 2"
    by (simp add: declaresMethod_def exampleTables_def)
  have m: "\<forall>q \<in> set [1, 2, 3 :: nat]. \<not> declaresMethod exampleTables ''missing'' q"
    by (simp add: declaresMethod_def exampleTables_def)
  have b: "bestMatch exampleTables (methodTable exampleTables 2 ''print'') argTypes =
      exampleSignature ''print'' False 2" for argTypes
    by (simp add: exampleTables_def)
  have k: "checkMutation (callee (exampleCall intersection Temporary n argTypes))
      (exampleSignature ''print'' False 2) = Inr ()" for n argTypes
    by (simp add: checkMutation_def exampleSignature_def)
  have k0: "postMatchChecks exampleTables (exampleSignature ''print'' False 2) [] = None"
    by (simp add: exampleTables_def arityCheck_def exampleSignature_def)
  have k1: "postMatchChecks exampleTables (exampleSignature ''print'' False 2) [bare IntegerOperand] =
      Some ArityMismatch"
    by (simp add: exampleTables_def arityCheck_def exampleSignature_def)
  note t0 = analyseMultiProtocolCall_cases [of ?print intersection "[1, 2, 3]" "[]" 2 exampleTables
      exampleTable 1]
  note t1 = analyseMultiProtocolCall_cases [of ?print1 intersection "[1, 2, 3]" "[bare IntegerOperand]" 2
      exampleTables exampleTable 1]
  note t2 = analyseMultiProtocolCall_cases [of ?describe intersection "[1, 2, 3]" "[]" 1 exampleTables
      exampleTable 2]
  note t3 = analyseMultiProtocolCall_cases [of ?missing intersection "[1, 2, 3]" "[]" 1 exampleTables
      exampleTable 2]
  from t0 n [of "[]" "''print''"] d p
  have c0: "analyseMethodCall exampleTable exampleTables ?print =
      (case checkMutation (callee ?print)
              (bestMatch exampleTables (methodTable exampleTables 2 (callName ?print)) []) of
         Inl err \<Rightarrow> Failed err
       | Inr u \<Rightarrow>
          (case postMatchChecks exampleTables
                  (bestMatch exampleTables (methodTable exampleTables 2 (callName ?print)) []) [] of
             Some err \<Rightarrow> Failed err
           | None \<Rightarrow> DispatchResolved
               (ProtocolDispatch (bestMatch exampleTables (methodTable exampleTables 2 (callName ?print)) []) 2)))"
    by simp
  from t1 n [of "[bare IntegerOperand]" "''print''"] d p
  have c1: "analyseMethodCall exampleTable exampleTables ?print1 =
      (case checkMutation (callee ?print1)
              (bestMatch exampleTables (methodTable exampleTables 2 (callName ?print1))
                 [bare IntegerOperand]) of
         Inl err \<Rightarrow> Failed err
       | Inr u \<Rightarrow>
          (case postMatchChecks exampleTables
                  (bestMatch exampleTables (methodTable exampleTables 2 (callName ?print1))
                     [bare IntegerOperand]) [bare IntegerOperand] of
             Some err \<Rightarrow> Failed err
           | None \<Rightarrow> DispatchResolved
               (ProtocolDispatch (bestMatch exampleTables (methodTable exampleTables 2 (callName ?print1))
                  [bare IntegerOperand]) 2)))"
    by simp
  from t2 n [of "[]" "''describe''"] a
  have c2: "analyseMethodCall exampleTable exampleTables ?describe = Failed AmbiguousProtocolMethod"
    by simp
  from t3 n [of "[]" "''missing''"] m
  have c3: "analyseMethodCall exampleTable exampleTables ?missing = Failed MethodNotFound"
    by simp
  have cn: "callName ?print = ''print''" "callName ?print1 = ''print''"
    by (simp_all add: exampleCall_def)
  from c0 c1 c2 c3 show ?thesis
    by (simp add: cn b k k0 k1)
qed

subsection \<open>Mutation\<close>

lemma findMethod_postMatchChecks:
  "findMethod (decls\<lparr>postMatchChecks := checks\<rparr>) receiver n argTypes =
   findMethod decls receiver n argTypes"
proof -
  have d: "declaresMethod (decls\<lparr>postMatchChecks := checks\<rparr>) n = declaresMethod decls n"
    by (rule ext) (simp add: declaresMethod_def)
  have "analyseMultiProtocolCall (decls\<lparr>postMatchChecks := checks\<rparr>) n members argTypes =
      analyseMultiProtocolCall decls n members argTypes" for members
    by (simp add: analyseMultiProtocolCall_def d split: list.splits)
  then show ?thesis
    by (simp add: findMethod_def split: TypeTag.splits)
qed

text \<open>
  C3: when the method found for a call is mutating and the receiver does not denote a
  mutable storage location (a temporary, an immutable binding, a non-mutating self, an
  immutable member or a member of such a location), the call fails with
  \<open>MutationOnImmutableReceiver\<close>, whatever the checks of arity, access, generic arguments
  and argument types would answer for it. For a method that is not mutating the check
  does nothing: the call is decided by those checks alone.
\<close>

theorem checkMutation_immutable_receiver:
  "(mutating signature \<and> \<not> mutableLocation (storage receiverExpression) \<longrightarrow>
      checkMutation receiverExpression signature = Inl MutationOnImmutableReceiver)
   \<and> (\<not> mutating signature \<longrightarrow> checkMutation receiverExpression signature = Inr ())
   \<and> (mutableLocation (storage receiverExpression) \<longrightarrow>
      checkMutation receiverExpression signature = Inr ())
   \<and> (analysed (callee node) = Inr receiver \<and> analyseArguments (args node) = Inr argTypes \<and>
      builtIn table receiver (callName node) argTypes = None \<and>
      findMethod decls receiver (callName node) argTypes = Inr found \<and>
      mutating (resolvedSignature found) \<and> \<not> mutableLocation (storage (callee node)) \<longrightarrow>
      analyseMethodCall table decls node = Failed MutationOnImmutableReceiver \<and>
      analyseMethodCall table (decls\<lparr>postMatchChecks := checks\<rparr>) node =
        Failed MutationOnImmutableReceiver)
   \<and> (analysed (callee node) = Inr receiver \<and> analyseArguments (args node) = Inr argTypes \<and>
      builtIn table receiver (callName node) argTypes = None \<and>
      findMethod decls receiver (callName node) argTypes = Inr found \<and>
      \<not> mutating (resolvedSignature found) \<longrightarrow>
      analyseMethodCall table decls node =
        (case postMatchChecks decls (resolvedSignature found) argTypes of
           Some err \<Rightarrow> Failed err
         | None \<Rightarrow> DispatchResolved found))
   \<and> (analysed (callee node) = Inr receiver \<and> analyseArguments (args node) = Inr argTypes \<and>
      builtIn table receiver (callName node) argTypes = None \<and>
      findMethod decls receiver (callName node) argTypes = Inr found \<and>
      mutableLocation (storage (callee node)) \<longrightarrow>
      analyseMethodCall table decls node =
        (case postMatchChecks decls (resolvedSignature found) argTypes of
           Some err \<Rightarrow> Failed err
         | None \<Rightarrow> DispatchResolved found))
   \<and> \<not> mutableLocation Temporary \<and> \<not> mutableLocation (LocalVariable False)
   \<and> \<not> mutableLocation (Self False) \<and> \<not> mutableLocation (MemberAccess base False)
   \<and> \<not> mutableLocation (MemberAccess Temporary declaredMutable)"
proof (intro conjI impI)
  assume h: "analysed (callee node) = Inr receiver \<and> analyseArguments (args node) = Inr argTypes \<and>
      builtIn table receiver (callName node) argTypes = None \<and>
      findMethod decls receiver (callName node) argTypes = Inr found \<and>
      mutating (resolvedSignature found) \<and> \<not> mutableLocation (storage (callee node))"
  then have c: "analysed (callee node) = Inr receiver" and a: "analyseArguments (args node) = Inr argTypes"
    and b: "builtIn table receiver (callName node) argTypes = None"
    by blast+
  have f: "findMethod (decls\<lparr>postMatchChecks := checks\<rparr>) receiver (callName node) argTypes =
      findMethod decls receiver (callName node) argTypes"
    by (rule findMethod_postMatchChecks)
  from analyseMethodCall_dispatch [OF c a b, of decls] h
  show "analyseMethodCall table decls node = Failed MutationOnImmutableReceiver"
    by (simp add: resolveDispatch_def checkMutation_def)
  from analyseMethodCall_dispatch [OF c a b, of "decls\<lparr>postMatchChecks := checks\<rparr>"] h
  show "analyseMethodCall table (decls\<lparr>postMatchChecks := checks\<rparr>) node =
      Failed MutationOnImmutableReceiver"
    by (simp add: resolveDispatch_def checkMutation_def f)
next
  assume h: "analysed (callee node) = Inr receiver \<and> analyseArguments (args node) = Inr argTypes \<and>
      builtIn table receiver (callName node) argTypes = None \<and>
      findMethod decls receiver (callName node) argTypes = Inr found \<and>
      \<not> mutating (resolvedSignature found)"
  then have "analyseMethodCall table decls node = resolveDispatch decls node receiver argTypes"
    by (intro analyseMethodCall_dispatch) blast+
  with h show "analyseMethodCall table decls node =
        (case postMatchChecks decls (resolvedSignature found) argTypes of
           Some err \<Rightarrow> Failed err
         | None \<Rightarrow> DispatchResolved found)"
    by (simp add: resolveDispatch_def checkMutation_def)
next
  assume h: "analysed (callee node) = Inr receiver \<and> analyseArguments (args node) = Inr argTypes \<and>
      builtIn table receiver (callName node) argTypes = None \<and>
      findMethod decls receiver (callName node) argTypes = Inr found \<and>
      mutableLocation (storage (callee node))"
  then have "analyseMethodCall table decls node = resolveDispatch decls node receiver argTypes"
    by (intro analyseMethodCall_dispatch) blast+
  with h show "analyseMethodCall table decls node =
        (case postMatchChecks decls (resolvedSignature found) argTypes of
           Some err \<Rightarrow> Failed err
         | None \<Rightarrow> DispatchResolved found)"
    by (simp add: resolveDispatch_def checkMutation_def)
qed (simp_all add: checkMutation_def)

theorem checkMutation_immutable_receiver_witness:
  "analyseMethodCall exampleTable exampleTables
      (exampleCall valueTypeReceiver Temporary ''increment'' []) =
     Failed MutationOnImmutableReceiver
   \<and> analyseMethodCall exampleTable exampleTables
      (exampleCall valueTypeReceiver Temporary ''increment'' [bare IntegerOperand]) =
     Failed MutationOnImmutableReceiver
   \<and> analyseMethodCall exampleTable (exampleTables\<lparr>postMatchChecks := \<lambda>signature argTypes. Some AccessViolation\<rparr>)
      (exampleCall valueTypeReceiver Temporary ''increment'' []) =
     Failed MutationOnImmutableReceiver
   \<and> analyseMethodCall exampleTable exampleTables
      (exampleCall valueTypeReceiver (LocalVariable False) ''increment'' []) =
     Failed MutationOnImmutableReceiver
   \<and> analyseMethodCall exampleTable exampleTables
      (exampleCall valueTypeReceiver Temporary ''value'' []) =
     DispatchResolved (StaticDispatch (exampleSignature ''value'' False 7))
   \<and> analyseMethodCall exampleTable exampleTables
      (exampleCall valueTypeReceiver (LocalVariable True) ''increment'' []) =
     DispatchResolved (StaticDispatch (exampleSignature ''increment'' True 7))
   \<and> analyseMethodCall exampleTable exampleTables
      (exampleCall valueTypeReceiver (LocalVariable True) ''increment'' [bare IntegerOperand]) =
     Failed ArityMismatch
   \<and> checkMutation \<lparr>analysed = Inr valueTypeReceiver, storage = LocalVariable True\<rparr>
        (exampleSignature ''increment'' True 7) = Inr ()"
proof -
  let ?inc = "StaticDispatch (exampleSignature ''increment'' True 7)"
  let ?val = "StaticDispatch (exampleSignature ''value'' False 7)"
  let ?e = "\<lparr>analysed = Inr valueTypeReceiver, storage = LocalVariable True\<rparr> :: OperandKind Expression"
  let ?deny = "\<lambda>(signature :: OperandKind MethodSignature) (argTypes :: OperandKind TypeDescriptor list).
      Some AccessViolation"
  have b: "builtIn exampleTable valueTypeReceiver n argTypes = None" for n argTypes
    by (simp add: builtIn_def valueTypeReceiver_def primitiveKind_def)
  have h0: "analysed (callee (exampleCall valueTypeReceiver s n [])) = Inr valueTypeReceiver \<and>
      analyseArguments (args (exampleCall valueTypeReceiver s n [])) = Inr [] \<and>
      builtIn exampleTable valueTypeReceiver (callName (exampleCall valueTypeReceiver s n [])) [] = None"
    for s n
    by (simp add: exampleCall_def b)
  have h1: "analysed (callee (exampleCall valueTypeReceiver s n [bare IntegerOperand])) =
        Inr valueTypeReceiver \<and>
      analyseArguments (args (exampleCall valueTypeReceiver s n [bare IntegerOperand])) =
        Inr [bare IntegerOperand] \<and>
      builtIn exampleTable valueTypeReceiver
        (callName (exampleCall valueTypeReceiver s n [bare IntegerOperand])) [bare IntegerOperand] = None"
    for s n
    by (simp add: exampleCall_def b)
  have r1: "findMethod exampleTables valueTypeReceiver
      (callName (exampleCall valueTypeReceiver s ''increment'' argTypes)) argTypes = Inr ?inc \<and>
      mutating (resolvedSignature ?inc)" for s argTypes
    by (simp add: findMethod_def exampleTables_def valueTypeReceiver_def exampleCall_def
          exampleSignature_def)
  have r2: "findMethod exampleTables valueTypeReceiver
      (callName (exampleCall valueTypeReceiver s ''value'' argTypes)) argTypes = Inr ?val \<and>
      \<not> mutating (resolvedSignature ?val)" for s argTypes
    by (simp add: findMethod_def exampleTables_def valueTypeReceiver_def exampleCall_def
          exampleSignature_def)
  have s1: "\<not> mutableLocation (storage (callee (exampleCall valueTypeReceiver Temporary n argTypes)))"
    and s2: "\<not> mutableLocation (storage (callee (exampleCall valueTypeReceiver (LocalVariable False) n argTypes)))"
    and s3: "mutableLocation (storage (callee (exampleCall valueTypeReceiver (LocalVariable True) n argTypes)))"
    for n argTypes
    by (simp_all add: exampleCall_def)
  have s4: "mutableLocation (storage ?e)"
    by simp
  have k0: "postMatchChecks exampleTables (resolvedSignature ?inc) [] = None"
    "postMatchChecks exampleTables (resolvedSignature ?val) [] = None"
    "postMatchChecks exampleTables (resolvedSignature ?inc) [bare IntegerOperand] = Some ArityMismatch"
    by (simp_all add: exampleTables_def arityCheck_def exampleSignature_def)
  note t = checkMutation_immutable_receiver [where signature = "exampleSignature ''increment'' True 7"
      and receiverExpression = ?e and receiver = valueTypeReceiver and table = exampleTable
      and decls = exampleTables and checks = ?deny]
  from t [where node = "exampleCall valueTypeReceiver Temporary ''increment'' []"
        and argTypes = "[]" and found = ?inc]
    h0 [of Temporary "''increment''"] r1 [of Temporary "[]"] s1 [of "''increment''" "[]"] s4
  have a1: "analyseMethodCall exampleTable exampleTables
      (exampleCall valueTypeReceiver Temporary ''increment'' []) = Failed MutationOnImmutableReceiver"
    and a3: "analyseMethodCall exampleTable (exampleTables\<lparr>postMatchChecks := ?deny\<rparr>)
      (exampleCall valueTypeReceiver Temporary ''increment'' []) = Failed MutationOnImmutableReceiver"
    and a8: "checkMutation ?e (exampleSignature ''increment'' True 7) = Inr ()"
    by blast+
  from t [where node = "exampleCall valueTypeReceiver Temporary ''increment'' [bare IntegerOperand]"
        and argTypes = "[bare IntegerOperand]" and found = ?inc]
    h1 [of Temporary "''increment''"] r1 [of Temporary "[bare IntegerOperand]"]
    s1 [of "''increment''" "[bare IntegerOperand]"]
  have a2: "analyseMethodCall exampleTable exampleTables
      (exampleCall valueTypeReceiver Temporary ''increment'' [bare IntegerOperand]) =
      Failed MutationOnImmutableReceiver"
    by blast
  from t [where node = "exampleCall valueTypeReceiver (LocalVariable False) ''increment'' []"
        and argTypes = "[]" and found = ?inc]
    h0 [of "LocalVariable False" "''increment''"] r1 [of "LocalVariable False" "[]"]
    s2 [of "''increment''" "[]"]
  have a4: "analyseMethodCall exampleTable exampleTables
      (exampleCall valueTypeReceiver (LocalVariable False) ''increment'' []) =
      Failed MutationOnImmutableReceiver"
    by blast
  from t [where node = "exampleCall valueTypeReceiver Temporary ''value'' []"
        and argTypes = "[]" and found = ?val]
    h0 [of Temporary "''value''"] r2 [of Temporary "[]"]
  have a5: "analyseMethodCall exampleTable exampleTables
      (exampleCall valueTypeReceiver Temporary ''value'' []) =
      (case postMatchChecks exampleTables (resolvedSignature ?val) [] of
         Some err \<Rightarrow> Failed err
       | None \<Rightarrow> DispatchResolved ?val)"
    by blast
  from t [where node = "exampleCall valueTypeReceiver (LocalVariable True) ''increment'' []"
        and argTypes = "[]" and found = ?inc]
    h0 [of "LocalVariable True" "''increment''"] r1 [of "LocalVariable True" "[]"]
    s3 [of "''increment''" "[]"]
  have a6: "analyseMethodCall exampleTable exampleTables
      (exampleCall valueTypeReceiver (LocalVariable True) ''increment'' []) =
      (case postMatchChecks exampleTables (resolvedSignature ?inc) [] of
         Some err \<Rightarrow> Failed err
       | None \<Rightarrow> DispatchResolved ?inc)"
    by blast
  from t [where node = "exampleCall valueTypeReceiver (LocalVariable True) ''increment'' [bare IntegerOperand]"
        and argTypes = "[bare IntegerOperand]" and found = ?inc]
    h1 [of "LocalVariable True" "''increment''"] r1 [of "LocalVariable True" "[bare IntegerOperand]"]
    s3 [of "''increment''" "[bare IntegerOperand]"]
  have a7: "analyseMethodCall exampleTable exampleTables
      (exampleCall valueTypeReceiver (LocalVariable True) ''increment'' [bare IntegerOperand]) =
      (case postMatchChecks exampleTables (resolvedSignature ?inc) [bare IntegerOperand] of
         Some err \<Rightarrow> Failed err
       | None \<Rightarrow> DispatchResolved ?inc)"
    by blast
  from a1 a2 a3 a4 a5 a6 a7 a8 show ?thesis
    by (simp only: k0 option.case)
qed

subsection \<open>Blocks and loops\<close>

lemma seq_append: "seq (as @ bs) w = (case seq as w of Inl e \<Rightarrow> Inl e | Inr w' \<Rightarrow> seq bs w')"
  by (induction as arbitrary: w) (auto split: sum.splits)

lemma forEach_printed_output:
  assumes "\<And>x v. x \<in> set xs \<Longrightarrow> body x v = Inr (v\<lparr>stdout := stdout v @ f (declarations v) x\<rparr>)"
  shows "forEach \<lparr>printedFirst = True\<rparr> xs body w =
         Inr (w\<lparr>stdout := stdout w @ concat (map (\<lambda>x. CHR '','' # f (declarations w) x) xs)\<rparr>)"
  using assms
proof (induction xs arbitrary: w)
  case Nil
  then show ?case by simp
next
  case (Cons x xs)
  then show ?case by (simp add: print_def)
qed

lemma commaSeparated_Cons: "commaSeparated (s # ss) = s @ concat (map (\<lambda>t. CHR '','' # t) ss)"
  by (induction ss arbitrary: s) auto

lemma forEach_output:
  assumes "\<And>x v. x \<in> set xs \<Longrightarrow> body x v = Inr (v\<lparr>stdout := stdout v @ f (declarations v) x\<rparr>)"
  shows "forEach newCommaPrinter xs body w =
         Inr (w\<lparr>stdout := stdout w @ commaSeparated (map (f (declarations w)) xs)\<rparr>)"
proof (cases xs)
  case Nil
  then show ?thesis by simp
next
  case (Cons x rest)
  have "\<And>y v. y \<in> set rest \<Longrightarrow> body y v = Inr (v\<lparr>stdout := stdout v @ f (declarations v) y\<rparr>)"
    using assms Cons by simp
  from forEach_printed_output [of rest body f, OF this]
  show ?thesis using Cons assms [of x]
    by (simp add: newCommaPrinter_def print_def commaSeparated_Cons comp_def)
qed

lemma forEach_fails:
  "x \<in> set xs \<Longrightarrow> (\<And>v. isl (body x v)) \<Longrightarrow> isl (forEach printer xs body w)"
proof (induction xs arbitrary: printer w)
  case Nil
  then show ?case by simp
next
  case (Cons y ys)
  obtain printer' w1 where p: "print printer w = (printer', w1)" by (cases "print printer w")
  show ?case
  proof (cases "body y w1")
    case (Inl e)
    with p show ?thesis by simp
  next
    case (Inr w2)
    with Cons.prems(2) [of w1] have "x \<noteq> y" by auto
    with Cons.prems(1) have "x \<in> set ys" by simp
    from Cons.IH [OF this Cons.prems(2)] p Inr show ?thesis by simp
  qed
qed

lemma length_commaSeparated:
  "length (commaSeparated ss) = sum_list (map length ss) + (length ss - 1)"
  by (induction ss rule: commaSeparated.induct) auto

lemma separatedBy_Cons: "separatedBy c (a # as) = a # concat (map (\<lambda>b. [c, b]) as)"
  by (induction as arbitrary: a) auto

lemma length_separatedBy: "length (separatedBy c as) = length as + (length as - 1)"
  by (induction c as rule: separatedBy.induct) auto

lemma forEach_printed_seq:
  "forEach \<lparr>printedFirst = True\<rparr> xs body w =
   seq (concat (map (\<lambda>b. [putc (CHR '',''), b]) (map body xs))) w"
  by (induction xs arbitrary: w) (simp_all add: print_def putc_def split: sum.splits)

lemma forEach_seq:
  "forEach newCommaPrinter xs body = seq (separatedBy (putc (CHR '','')) (map body xs))"
proof (rule ext)
  fix w
  show "forEach newCommaPrinter xs body w = seq (separatedBy (putc (CHR '','')) (map body xs)) w"
  proof (cases xs)
    case Nil
    then show ?thesis by simp
  next
    case (Cons x rest)
    then show ?thesis
      by (simp add: newCommaPrinter_def print_def separatedBy_Cons forEach_printed_seq
            split: sum.splits)
  qed
qed

lemma forEach_printed_declarations:
  assumes "declarations w = d"
    and "\<And>x v. x \<in> set xs \<Longrightarrow> declarations v = d \<Longrightarrow> body x v = Inr (v\<lparr>stdout := stdout v @ f x\<rparr>)"
  shows "forEach \<lparr>printedFirst = True\<rparr> xs body w =
         Inr (w\<lparr>stdout := stdout w @ concat (map (\<lambda>x. CHR '','' # f x) xs)\<rparr>)"
  using assms
proof (induction xs arbitrary: w)
  case Nil
  then show ?case by simp
next
  case (Cons x xs)
  let ?w1 = "w\<lparr>stdout := stdout w @ [CHR '','']\<rparr>"
  have b: "body x ?w1 = Inr (?w1\<lparr>stdout := stdout ?w1 @ f x\<rparr>)"
    using Cons.prems by simp
  have "forEach \<lparr>printedFirst = True\<rparr> xs body (?w1\<lparr>stdout := stdout ?w1 @ f x\<rparr>) =
      Inr ((?w1\<lparr>stdout := stdout ?w1 @ f x\<rparr>)\<lparr>stdout := stdout (?w1\<lparr>stdout := stdout ?w1 @ f x\<rparr>) @
             concat (map (\<lambda>x. CHR '','' # f x) xs)\<rparr>)"
    using Cons.prems by (intro Cons.IH) simp_all
  with b show ?case by (simp add: print_def)
qed

lemma forEach_output_declarations:
  assumes "\<And>x v. x \<in> set xs \<Longrightarrow> declarations v = declarations w \<Longrightarrow>
      body x v = Inr (v\<lparr>stdout := stdout v @ f x\<rparr>)"
  shows "forEach newCommaPrinter xs body w =
         Inr (w\<lparr>stdout := stdout w @ commaSeparated (map f xs)\<rparr>)"
proof (cases xs)
  case Nil
  then show ?thesis by simp
next
  case (Cons x rest)
  let ?w1 = "w\<lparr>stdout := stdout w @ f x\<rparr>"
  have b: "body x w = Inr ?w1"
    using assms Cons by simp
  have "forEach \<lparr>printedFirst = True\<rparr> rest body ?w1 =
      Inr (?w1\<lparr>stdout := stdout ?w1 @ concat (map (\<lambda>x. CHR '','' # f x) rest)\<rparr>)"
    using assms Cons by (intro forEach_printed_declarations [where d = "declarations w"]) simp_all
  with b Cons show ?thesis
    by (simp add: newCommaPrinter_def print_def commaSeparated_Cons comp_def)
qed

lemma forEach_printed_returns:
  assumes "\<And>x v v'. x \<in> set xs \<Longrightarrow> body x v = Inr v' \<Longrightarrow> \<exists>s. v' = v\<lparr>stdout := stdout v @ s\<rparr>"
    and "forEach \<lparr>printedFirst = True\<rparr> xs body w = Inr w'"
    and "declarations w = d" "callNodes w = cn"
  shows "\<exists>ss. list_all2 (\<lambda>x s. \<exists>v. declarations v = d \<and> callNodes v = cn \<and>
                  body x v = Inr (v\<lparr>stdout := stdout v @ s\<rparr>)) xs ss \<and>
              w' = w\<lparr>stdout := stdout w @ concat (map (\<lambda>s. CHR '','' # s) ss)\<rparr>"
  using assms
proof (induction xs arbitrary: w)
  case Nil
  then show ?case by simp
next
  case (Cons x xs)
  let ?w1 = "w\<lparr>stdout := stdout w @ [CHR '','']\<rparr>"
  from Cons.prems(2) obtain w2 where b: "body x ?w1 = Inr w2"
    and r: "forEach \<lparr>printedFirst = True\<rparr> xs body w2 = Inr w'"
    by (auto simp: print_def split: sum.splits)
  from Cons.prems(1) [of x ?w1 w2] b obtain s where s: "w2 = ?w1\<lparr>stdout := stdout ?w1 @ s\<rparr>"
    by auto
  have a: "\<exists>s. v' = v\<lparr>stdout := stdout v @ s\<rparr>" if "y \<in> set xs" "body y v = Inr v'" for y v v'
    by (rule Cons.prems(1) [of y v v']) (simp_all add: that)
  have d2: "declarations w2 = d" "callNodes w2 = cn"
    using s Cons.prems(3,4) by simp_all
  have "\<exists>ss. list_all2 (\<lambda>x s. \<exists>v. declarations v = d \<and> callNodes v = cn \<and>
                  body x v = Inr (v\<lparr>stdout := stdout v @ s\<rparr>)) xs ss \<and>
              w' = w2\<lparr>stdout := stdout w2 @ concat (map (\<lambda>s. CHR '','' # s) ss)\<rparr>"
    by (rule Cons.IH [OF a r d2])
  then obtain ss where l: "list_all2 (\<lambda>x s. \<exists>v. declarations v = d \<and> callNodes v = cn \<and>
                  body x v = Inr (v\<lparr>stdout := stdout v @ s\<rparr>)) xs ss"
    and e: "w' = w2\<lparr>stdout := stdout w2 @ concat (map (\<lambda>s. CHR '','' # s) ss)\<rparr>"
    by blast
  have h: "\<exists>v. declarations v = d \<and> callNodes v = cn \<and> body x v = Inr (v\<lparr>stdout := stdout v @ s\<rparr>)"
    using b s Cons.prems(3,4) by (intro exI [of _ ?w1]) simp
  from l h have "list_all2 (\<lambda>x s. \<exists>v. declarations v = d \<and> callNodes v = cn \<and>
                  body x v = Inr (v\<lparr>stdout := stdout v @ s\<rparr>)) (x # xs) (s # ss)"
    by simp
  moreover from e s have "w' = w\<lparr>stdout := stdout w @ concat (map (\<lambda>s. CHR '','' # s) (s # ss))\<rparr>"
    by simp
  ultimately show ?case by blast
qed

lemma forEach_returns:
  assumes "\<And>x v v'. x \<in> set xs \<Longrightarrow> body x v = Inr v' \<Longrightarrow> \<exists>s. v' = v\<lparr>stdout := stdout v @ s\<rparr>"
    and "forEach newCommaPrinter xs body w = Inr w'"
  shows "\<exists>ss. list_all2 (\<lambda>x s. \<exists>v. declarations v = declarations w \<and> callNodes v = callNodes w \<and>
                  body x v = Inr (v\<lparr>stdout := stdout v @ s\<rparr>)) xs ss \<and>
              w' = w\<lparr>stdout := stdout w @ commaSeparated ss\<rparr>"
proof (cases xs)
  case Nil
  with assms(2) show ?thesis by simp
next
  case (Cons x rest)
  with assms(2) obtain w2 where b: "body x w = Inr w2"
    and r: "forEach \<lparr>printedFirst = True\<rparr> rest body w2 = Inr w'"
    by (auto simp: newCommaPrinter_def print_def split: sum.splits)
  from assms(1) [of x w w2] b Cons obtain s where s: "w2 = w\<lparr>stdout := stdout w @ s\<rparr>"
    by auto
  have a: "\<exists>s. v' = v\<lparr>stdout := stdout v @ s\<rparr>" if "y \<in> set rest" "body y v = Inr v'" for y v v'
    by (rule assms(1) [of y v v']) (simp_all add: that Cons)
  have d2: "declarations w2 = declarations w" "callNodes w2 = callNodes w"
    using s by simp_all
  have "\<exists>ss. list_all2 (\<lambda>x s. \<exists>v. declarations v = declarations w \<and> callNodes v = callNodes w \<and>
                  body x v = Inr (v\<lparr>stdout := stdout v @ s\<rparr>)) rest ss \<and>
              w' = w2\<lparr>stdout := stdout w2 @ concat (map (\<lambda>s. CHR '','' # s) ss)\<rparr>"
    by (rule forEach_printed_returns [OF a r d2])
  then obtain ss where l: "list_all2 (\<lambda>x s. \<exists>v. declarations v = declarations w \<and> callNodes v = callNodes w \<and>
                  body x v = Inr (v\<lparr>stdout := stdout v @ s\<rparr>)) rest ss"
    and e: "w' = w2\<lparr>stdout := stdout w2 @ concat (map (\<lambda>s. CHR '','' # s) ss)\<rparr>"
    by blast
  have h: "\<exists>v. declarations v = declarations w \<and> callNodes v = callNodes w \<and>
      body x v = Inr (v\<lparr>stdout := stdout v @ s\<rparr>)"
    using b s by (intro exI [of _ w]) simp
  from l h Cons have "list_all2 (\<lambda>x s. \<exists>v. declarations v = declarations w \<and> callNodes v = callNodes w \<and>
                  body x v = Inr (v\<lparr>stdout := stdout v @ s\<rparr>)) xs (s # ss)"
    by simp
  moreover from e s have "w' = w\<lparr>stdout := stdout w @ commaSeparated (s # ss)\<rparr>"
    by (simp add: commaSeparated_Cons)
  ultimately show ?thesis by blast
qed

subsection \<open>Documentation\<close>

text \<open>
  C10: \<open>reportDocumentation\<close> writes nothing for an empty documentation string; for a
  non-empty one it writes the key, the string as \<open>printJSONStringToFile\<close> prints it,
  and a comma.
\<close>

theorem reportDocumentation_emits:
  \<open>reportDocumentation L [] w = Inr w
   \<and> (doc \<noteq> [] \<longrightarrow>
      reportDocumentation L doc w =
        Inr (w\<lparr>stdout := stdout w @ ''"documentation":'' @
               printJSONStringToFile L (c_str (utf8 L doc)) @ '',''\<rparr>))\<close>
  by (simp add: reportDocumentation_def printf_def putc_def)

theorem reportDocumentation_emits_witness:
  \<open>[0x41 :: 32 word] \<noteq> []
   \<and> reportDocumentation exampleLibrary [] emptyWorld = Inr emptyWorld
   \<and> reportDocumentation exampleLibrary [0x41] emptyWorld =
       Inr (emptyWorld\<lparr>stdout := ''"documentation":"A",''\<rparr>)\<close>
  using reportDocumentation_emits [of exampleLibrary emptyWorld "[0x41]"]
  by (simp add: exampleLibrary_def emptyWorld_def c_str_def)

subsection \<open>Generic arguments\<close>

lemma assignNames_length: "assignNames m sc g = Inr g' \<Longrightarrow> length g' = length g"
  by (induction m arbitrary: g) (auto simp: Let_def split: if_splits)

lemma assignNames_safe_iff:
  "(\<not> isl (assignNames m sc g)) = (\<forall>it \<in> set m. slot sc it < length g)"
  by (induction m arbitrary: g) (auto simp: Let_def slot_def)

lemma assignNames_other:
  "assignNames m sc g = Inr g' \<Longrightarrow> i \<notin> slot sc ` set m \<Longrightarrow> g' ! i = g ! i"
  by (induction m arbitrary: g) (auto simp: Let_def slot_def split: if_splits)

lemma assignNames_nth:
  "assignNames m sc g = Inr g' \<Longrightarrow> distinct (map (slot sc) m) \<Longrightarrow> it \<in> set m \<Longrightarrow>
   g' ! slot sc it = fst it"
proof (induction m arbitrary: g)
  case Nil
  then show ?case by simp
next
  case (Cons x rest)
  let ?g1 = "g[slot sc x := fst x]"
  from Cons.prems(1) have inb: "slot sc x < length g" and r: "assignNames rest sc ?g1 = Inr g'"
    by (auto simp: Let_def slot_def split: if_splits)
  show ?case
  proof (cases "it \<in> set rest")
    case True
    with Cons.IH [OF r] Cons.prems(2) show ?thesis by simp
  next
    case False
    with Cons.prems(3) have e: "it = x" by simp
    from Cons.prems(2) have "slot sc x \<notin> slot sc ` set rest" by simp
    from assignNames_other [OF r this] inb e show ?thesis by simp
  qed
qed

lemma reportType_output:
  "reportType L t tc v = Inr (v\<lparr>stdout := stdout v @ typeJSON L (declarations v) tc t\<rparr>)"
  by (simp add: reportType_def typeJSON_def printf_def)

lemma sorted_distinct_range:
  fixes xs :: "nat list"
  assumes "sorted xs" "distinct xs" "set xs \<subseteq> {a ..< a + length xs}"
  shows "xs = [a ..< a + length xs]"
proof -
  have "card (set xs) = card {a ..< a + length xs}"
    using assms(2) by (simp add: distinct_card)
  with assms(3) have "set xs = {a ..< a + length xs}"
    by (simp add: card_subset_eq)
  then show ?thesis
    using assms(1,2) by (intro sorted_distinct_set_unique) simp_all
qed

lemma slot_in_range:
  assumes "unat sc \<le> unat (genericVariableIndex (snd it))"
  shows "slot sc it = unat (genericVariableIndex (snd it)) - unat sc"
  using assms by (simp add: slot_def unat_sub_if')

lemma slot_necessary:
  assumes "unat sc + n \<le> 2 ^ 64" "slot sc it < n"
  shows "unat sc \<le> unat (genericVariableIndex (snd it)) \<and>
         unat (genericVariableIndex (snd it)) < unat sc + n"
  using assms by (auto simp: slot_def unat_sub_if' split: if_splits)

lemma indicesInRange_iff_slots:
  assumes "unat sc + length m \<le> 2 ^ 64"
  shows "indicesInRange m sc = (\<forall>it \<in> set m. slot sc it < length m)"
proof
  assume "indicesInRange m sc"
  then show "\<forall>it \<in> set m. slot sc it < length m"
    by (auto simp: indicesInRange_def list_all_iff slot_in_range)
next
  assume "\<forall>it \<in> set m. slot sc it < length m"
  with slot_necessary [OF assms] show "indicesInRange m sc"
    by (auto simp: indicesInRange_def list_all_iff)
qed

lemma distinct_keys:
  assumes "indicesDistinct m"
  shows "distinct (map (\<lambda>it. unat (genericVariableIndex (snd it))) m)"
proof -
  have "distinct (map unat (map (\<lambda>it. genericVariableIndex (snd it)) m))"
    using assms unfolding indicesDistinct_def
    by (subst distinct_map) (auto simp: inj_on_def word_unat_eq_iff)
  then show ?thesis by (simp add: comp_def)
qed

lemma sorted_keys:
  assumes r: "indicesInRange m sc" and d: "indicesDistinct m"
  shows "map (\<lambda>it. unat (genericVariableIndex (snd it)))
           (sort_key (\<lambda>it. unat (genericVariableIndex (snd it))) m) =
         [unat sc ..< unat sc + length m]"
proof -
  let ?k = "\<lambda>it :: u32string \<times> Type. unat (genericVariableIndex (snd it))"
  let ?s = "sort_key ?k m"
  have "distinct (map ?k m)"
    by (rule distinct_keys [OF d])
  then have dist: "distinct (map ?k ?s)"
    by (simp add: distinct_map)
  have sub: "set (map ?k ?s) \<subseteq> {unat sc ..< unat sc + length (map ?k ?s)}"
    using r by (auto simp: indicesInRange_def list_all_iff)
  from sorted_distinct_range [OF sorted_sort_key dist sub] show ?thesis by simp
qed

lemma assignNames_sorted:
  assumes r: "indicesInRange m sc" and d: "indicesDistinct m"
  shows "assignNames m sc (replicate (length m) []) = Inr (namesByIndex m)"
proof -
  let ?k = "\<lambda>it :: u32string \<times> Type. unat (genericVariableIndex (snd it))"
  let ?s = "sort_key ?k m"
  have slots: "\<forall>it \<in> set m. slot sc it = ?k it - unat sc \<and> slot sc it < length m"
    using r by (auto simp: indicesInRange_def list_all_iff slot_in_range)
  have "\<forall>it \<in> set m. slot sc it < length m"
    using slots by blast
  then have "\<not> isl (assignNames m sc (replicate (length m) []))"
    by (simp add: assignNames_safe_iff)
  then obtain g where g: "assignNames m sc (replicate (length m) []) = Inr g"
    by (cases "assignNames m sc (replicate (length m) [])") auto
  have len: "length g = length m"
    using assignNames_length [OF g] by simp
  have inj: "distinct (map (slot sc) m)"
  proof -
    have "distinct (map ?k m)"
      by (rule distinct_keys [OF d])
    then have dm: "distinct m" and ik: "inj_on ?k (set m)"
      by (auto simp: distinct_map)
    have "inj_on (slot sc) (set m)"
    proof (rule inj_onI)
      fix a b assume a: "a \<in> set m" and b: "b \<in> set m" and e: "slot sc a = slot sc b"
      from r a b have "unat sc \<le> ?k a" "unat sc \<le> ?k b"
        by (auto simp: indicesInRange_def list_all_iff)
      with slots a b e have "?k a = ?k b" by auto
      with ik a b show "a = b" by (auto dest: inj_onD)
    qed
    with dm show ?thesis by (simp add: distinct_map)
  qed
  have keys: "map ?k ?s = [unat sc ..< unat sc + length m]"
    by (rule sorted_keys [OF r d])
  have "g = namesByIndex m"
  proof (rule nth_equalityI)
    show "length g = length (namesByIndex m)"
      by (simp add: len namesByIndex_def)
  next
    fix i assume "i < length g"
    with len have i: "i < length m" by simp
    then have si: "i < length ?s" by simp
    have mem: "?s ! i \<in> set m"
      using si by (metis nth_mem set_sort)
    have "?k (?s ! i) = map ?k ?s ! i"
      using si by simp
    also have "\<dots> = unat sc + i"
      using i by (simp add: keys)
    finally have "slot sc (?s ! i) = i"
      using slots mem by simp
    with assignNames_nth [OF g inj mem] have "g ! i = fst (?s ! i)"
      by simp
    then show "g ! i = namesByIndex m ! i"
      using si by (simp add: namesByIndex_def)
  qed
  with g show ?thesis by simp
qed

lemma reportGenericArguments_unfold:
  \<open>reportGenericArguments L m cs sc tc w =
    (case assignNames m sc (replicate (length m) []) of
       Inl e \<Rightarrow> Inl e
     | Inr gans \<Rightarrow>
        (case forEach newCommaPrinter [0 ..< length gans]
                (\<lambda>i. if i < length cs
                      then seq [
                        printf ''{"name":'',
                        printf (printJSONStringToFile L (c_str (utf8 L (gans ! i)))),
                        printf '',"constraint":'',
                        reportType L (cs ! i) tc,
                        printf ''}'']
                      else (\<lambda>w'. Inl OutOfBounds))
                (w\<lparr>stdout := stdout w @ ''"genericArguments":[''\<rparr>) of
           Inl e \<Rightarrow> Inl e
         | Inr w' \<Rightarrow> Inr (w'\<lparr>stdout := stdout w' @ ''],''\<rparr>)))\<close>
  by (simp add: reportGenericArguments_def printf_def split: sum.splits)

lemma entry_output:
  \<open>i < length cs \<Longrightarrow>
   (if i < length cs
    then seq [
      printf ''{"name":'',
      printf (printJSONStringToFile L (c_str (utf8 L (gans ! i)))),
      printf '',"constraint":'',
      reportType L (cs ! i) tc,
      printf ''}'']
    else (\<lambda>w'. Inl OutOfBounds)) v =
   Inr (v\<lparr>stdout := stdout v @ genericArgumentJSON L (declarations v) tc (gans ! i, cs ! i)\<rparr>)\<close>
  by (simp add: printf_def reportType_output genericArgumentJSON_def)

lemma reportGenericArguments_output:
  assumes g: "assignNames m sc (replicate (length m) []) = Inr gans" and c: "length m \<le> length cs"
  shows \<open>reportGenericArguments L m cs sc tc w =
    Inr (w\<lparr>stdout := stdout w @ ''"genericArguments":['' @
           commaSeparated (map (genericArgumentJSON L (declarations w) tc) (zip gans cs)) @ ''],''\<rparr>)\<close>
proof -
  have len: "length gans = length m"
    using assignNames_length [OF g] by simp
  have z: "map (\<lambda>i. genericArgumentJSON L (declarations w) tc (gans ! i, cs ! i)) [0 ..< length gans] =
           map (genericArgumentJSON L (declarations w) tc) (zip gans cs)"
    using c len by (intro nth_equalityI) simp_all
  have \<open>\<And>x v. x \<in> set [0 ..< length gans] \<Longrightarrow>
      (if x < length cs
       then seq [
         printf ''{"name":'',
         printf (printJSONStringToFile L (c_str (utf8 L (gans ! x)))),
         printf '',"constraint":'',
         reportType L (cs ! x) tc,
         printf ''}'']
       else (\<lambda>w'. Inl OutOfBounds)) v =
      Inr (v\<lparr>stdout := stdout v @ (\<lambda>d i. genericArgumentJSON L d tc (gans ! i, cs ! i)) (declarations v) x\<rparr>)\<close>
    using c len by (intro entry_output) simp
  from forEach_output [of "[0 ..< length gans]" _ "\<lambda>d i. genericArgumentJSON L d tc (gans ! i, cs ! i)", OF this]
  show ?thesis
    by (simp add: reportGenericArguments_unfold g z)
qed

text \<open>
  C8, as amended: provided \<open>superCount + map.size()\<close> does not exceed \<open>2^64\<close>,
  \<open>reportGenericArguments\<close> runs without an out-of-bounds access if and only if every
  variable index lies in \<open>[superCount, superCount + map.size())\<close> and \<open>constraints\<close>
  has at least \<open>map.size()\<close> entries; distinct indices are not needed for that. If the
  indices are distinct as well, the output lists every name exactly once, ordered by
  variable index, the name in slot \<open>i\<close> with \<open>constraints[i]\<close>.
\<close>

theorem reportGenericArguments_safe:
  assumes "unat superCount + length m \<le> 2 ^ 64"
  shows \<open>(\<not> isl (reportGenericArguments L m cs superCount tc w)) =
           (indicesInRange m superCount \<and> length m \<le> length cs)
         \<and> (indicesInRange m superCount \<and> indicesDistinct m \<and> length m \<le> length cs \<longrightarrow>
            reportGenericArguments L m cs superCount tc w =
              Inr (w\<lparr>stdout := stdout w @ ''"genericArguments":['' @
                     commaSeparated (map (genericArgumentJSON L (declarations w) tc)
                                       (zip (namesByIndex m) cs)) @ ''],''\<rparr>))\<close>
proof (intro conjI impI)
  show "(\<not> isl (reportGenericArguments L m cs superCount tc w)) =
        (indicesInRange m superCount \<and> length m \<le> length cs)"
  proof
    assume ok: "\<not> isl (reportGenericArguments L m cs superCount tc w)"
    then obtain gans where g: "assignNames m superCount (replicate (length m) []) = Inr gans"
      by (cases "assignNames m superCount (replicate (length m) [])")
         (auto simp: reportGenericArguments_unfold)
    then have "\<not> isl (assignNames m superCount (replicate (length m) []))" by simp
    then have r: "indicesInRange m superCount"
      by (simp add: assignNames_safe_iff indicesInRange_iff_slots [OF assms])
    have len: "length gans = length m"
      using assignNames_length [OF g] by simp
    let ?body = \<open>\<lambda>i. if i < length cs
                      then seq [
                        printf ''{"name":'',
                        printf (printJSONStringToFile L (c_str (utf8 L (gans ! i)))),
                        printf '',"constraint":'',
                        reportType L (cs ! i) tc,
                        printf ''}'']
                      else (\<lambda>w'. Inl OutOfBounds)\<close>
    let ?w1 = \<open>w\<lparr>stdout := stdout w @ ''"genericArguments":[''\<rparr>\<close>
    have "length m \<le> length cs"
    proof (rule ccontr)
      assume "\<not> length m \<le> length cs"
      then have "length cs \<in> set [0 ..< length gans]"
        using len by simp
      from forEach_fails [OF this, of ?body newCommaPrinter ?w1]
      have "isl (forEach newCommaPrinter [0 ..< length gans] ?body ?w1)" by simp
      with ok g show False
        by (auto simp: reportGenericArguments_unfold split: sum.splits)
    qed
    with r show "indicesInRange m superCount \<and> length m \<le> length cs" ..
  next
    assume h: "indicesInRange m superCount \<and> length m \<le> length cs"
    then have "\<forall>it \<in> set m. slot superCount it < length m"
      by (simp add: indicesInRange_iff_slots [OF assms])
    then have "\<not> isl (assignNames m superCount (replicate (length m) []))"
      by (simp add: assignNames_safe_iff)
    then obtain gans where g: "assignNames m superCount (replicate (length m) []) = Inr gans"
      by (cases "assignNames m superCount (replicate (length m) [])") auto
    from reportGenericArguments_output [OF g] h
    show "\<not> isl (reportGenericArguments L m cs superCount tc w)" by simp
  qed
next
  assume h: "indicesInRange m superCount \<and> indicesDistinct m \<and> length m \<le> length cs"
  then have "assignNames m superCount (replicate (length m) []) = Inr (namesByIndex m)"
    by (simp add: assignNames_sorted)
  from reportGenericArguments_output [OF this] h
  show \<open>reportGenericArguments L m cs superCount tc w =
      Inr (w\<lparr>stdout := stdout w @ ''"genericArguments":['' @
             commaSeparated (map (genericArgumentJSON L (declarations w) tc)
                               (zip (namesByIndex m) cs)) @ ''],''\<rparr>)\<close>
    by simp
qed

text \<open>
  Two names with the same variable index: no access is out of bounds, the second name
  overwrites the first and one slot keeps the empty name.
\<close>

theorem reportGenericArguments_duplicate_index:
  \<open>reportGenericArguments exampleLibrary
      [([0x41], exampleType 0), ([0x42], exampleType 0)] [exampleType 0, exampleType 0] 0
      (TypeContext 0 False None) emptyWorld =
    Inr (emptyWorld\<lparr>stdout :=
      ''"genericArguments":[{"name":"B","constraint":{"package":"s","name":"T","optional":false}},{"name":"","constraint":{"package":"s","name":"T","optional":false}}],''\<rparr>)
   \<and> \<not> indicesDistinct [([0x41], exampleType 0), ([0x42], exampleType 0)]\<close>
  by (simp add: reportGenericArguments_def printf_def exampleLibrary_def exampleType_def
        emptyWorld_def indicesDistinct_def newCommaPrinter_def print_def reportType_def
        c_str_def upt_rec numeral_2_eq_2)

theorem reportGenericArguments_safe_witness:
  \<open>unat (5 :: 64 word) + length [([0x41 :: 32 word], exampleType 6), ([0x42], exampleType 5)] \<le> 2 ^ 64
   \<and> indicesInRange [([0x41], exampleType 6), ([0x42], exampleType 5)] 5
   \<and> indicesDistinct [([0x41], exampleType 6), ([0x42], exampleType 5)]
   \<and> \<not> isl (reportGenericArguments exampleLibrary
          [([0x41], exampleType 6), ([0x42], exampleType 5)]
          [exampleType 0, exampleType 0, exampleType 0] 5 (TypeContext 0 False None) emptyWorld)
   \<and> reportGenericArguments exampleLibrary
          [([0x41], exampleType 6), ([0x42], exampleType 5)]
          [exampleType 0, exampleType 0, exampleType 0] 5 (TypeContext 0 False None) emptyWorld =
        Inr (emptyWorld\<lparr>stdout :=
          ''"genericArguments":[{"name":"B","constraint":{"package":"s","name":"T","optional":false}},{"name":"A","constraint":{"package":"s","name":"T","optional":false}}],''\<rparr>)\<close>
proof -
  let ?m = "[([0x41 :: 32 word], exampleType 6), ([0x42], exampleType 5)]"
  let ?cs = "[exampleType 0, exampleType 0, exampleType 0]"
  have a: "unat (5 :: 64 word) + length ?m \<le> 2 ^ 64" by simp
  have r: "indicesInRange ?m 5" by (simp add: indicesInRange_def exampleType_def)
  have d: "indicesDistinct ?m" by (simp add: indicesDistinct_def exampleType_def)
  have c: "length ?m \<le> length ?cs" by simp
  have n: "namesByIndex ?m = [[0x42], [0x41]]"
    by (simp add: namesByIndex_def exampleType_def)
  note t = reportGenericArguments_safe [OF a, of exampleLibrary ?cs "TypeContext 0 False None" emptyWorld]
  from t r c have ok: "\<not> isl (reportGenericArguments exampleLibrary ?m ?cs 5 (TypeContext 0 False None) emptyWorld)"
    by blast
  from t r d c have out: \<open>reportGenericArguments exampleLibrary ?m ?cs 5 (TypeContext 0 False None) emptyWorld =
      Inr (emptyWorld\<lparr>stdout := stdout emptyWorld @ ''"genericArguments":['' @
             commaSeparated (map (genericArgumentJSON exampleLibrary (declarations emptyWorld) (TypeContext 0 False None))
                               (zip (namesByIndex ?m) ?cs)) @ ''],''\<rparr>)\<close>
    by blast
  have e: \<open>stdout emptyWorld @ ''"genericArguments":['' @
             commaSeparated (map (genericArgumentJSON exampleLibrary (declarations emptyWorld) (TypeContext 0 False None))
                               (zip (namesByIndex ?m) ?cs)) @ ''],'' =
      ''"genericArguments":[{"name":"B","constraint":{"package":"s","name":"T","optional":false}},{"name":"A","constraint":{"package":"s","name":"T","optional":false}}],''\<close>
    unfolding n
    by (simp add: genericArgumentJSON_def typeJSON_def exampleLibrary_def exampleType_def
          emptyWorld_def c_str_def)
  show ?thesis
    using a r d ok out unfolding e by simp
qed

subsection \<open>The reporter only writes output\<close>

lemma outputOnlyI:
  assumes "\<And>w w'. a w = Inr w' \<Longrightarrow> \<exists>s. w' = w\<lparr>stdout := stdout w @ s\<rparr>"
    and "\<And>w cn. a (w\<lparr>callNodes := cn\<rparr>) =
        (case a w of Inl e \<Rightarrow> Inl e | Inr w' \<Rightarrow> Inr (w'\<lparr>callNodes := cn\<rparr>))"
  shows "outputOnly a"
  using assms unfolding outputOnly_def by blast

lemma outputOnly_printf: "outputOnly (printf s)"
  by (rule outputOnlyI) (auto simp: printf_def)

lemma outputOnly_putc: "outputOnly (putc c)"
  by (rule outputOnlyI) (auto simp: putc_def)

lemma outputOnly_fail: "outputOnly (\<lambda>w. Inl e)"
  by (rule outputOnlyI) auto

lemma outputOnly_reportType: "outputOnly (reportType L t tc)"
  by (rule outputOnlyI) (auto simp: reportType_def printf_def)

lemma outputOnly_compose:
  assumes a: "outputOnly a" and b: "outputOnly b"
  shows "outputOnly (\<lambda>w. case a w of Inl e \<Rightarrow> Inl e | Inr w' \<Rightarrow> b w')"
proof (rule outputOnlyI)
  fix w w'
  assume r: "(case a w of Inl e \<Rightarrow> Inl e | Inr w1 \<Rightarrow> b w1) = Inr w'"
  then obtain w1 where w1: "a w = Inr w1" and k: "b w1 = Inr w'"
    by (auto split: sum.splits)
  from a w1 obtain s where s: "w1 = w\<lparr>stdout := stdout w @ s\<rparr>"
    unfolding outputOnly_def by blast
  from b k obtain s' where "w' = w1\<lparr>stdout := stdout w1 @ s'\<rparr>"
    unfolding outputOnly_def by blast
  with s have "w' = w\<lparr>stdout := stdout w @ (s @ s')\<rparr>" by simp
  then show "\<exists>s. w' = w\<lparr>stdout := stdout w @ s\<rparr>" ..
next
  fix w cn
  have ea: "a (w\<lparr>callNodes := cn\<rparr>) =
      (case a w of Inl e \<Rightarrow> Inl e | Inr w1 \<Rightarrow> Inr (w1\<lparr>callNodes := cn\<rparr>))"
    using a unfolding outputOnly_def by blast
  have eb: "\<And>w1. b (w1\<lparr>callNodes := cn\<rparr>) =
      (case b w1 of Inl e \<Rightarrow> Inl e | Inr w2 \<Rightarrow> Inr (w2\<lparr>callNodes := cn\<rparr>))"
    using b unfolding outputOnly_def by blast
  show "(case a (w\<lparr>callNodes := cn\<rparr>) of Inl e \<Rightarrow> Inl e | Inr w1 \<Rightarrow> b w1) =
        (case (case a w of Inl e \<Rightarrow> Inl e | Inr w1 \<Rightarrow> b w1) of
           Inl e \<Rightarrow> Inl e | Inr w' \<Rightarrow> Inr (w'\<lparr>callNodes := cn\<rparr>))"
    by (simp add: ea eb split: sum.splits)
qed

lemma world_unchanged: "\<exists>s. w = w\<lparr>stdout := stdout w @ s\<rparr>"
  by (rule exI [of _ "[]"]) simp

lemma outputOnly_Inr: "outputOnly Inr"
  by (rule outputOnlyI) (auto simp: world_unchanged)

lemma seq_Nil: "seq [] = Inr"
  by (rule ext) simp

lemma outputOnly_skip: "outputOnly (seq [])"
  by (simp add: seq_Nil outputOnly_Inr)

lemma outputOnly_seq:
  assumes "\<And>a. a \<in> set as \<Longrightarrow> outputOnly a"
  shows "outputOnly (seq as)"
  using assms
proof (induction as)
  case Nil
  show ?case by (rule outputOnly_skip)
next
  case (Cons a as)
  have "outputOnly (\<lambda>w. case a w of Inl e \<Rightarrow> Inl e | Inr w' \<Rightarrow> seq as w')"
    using Cons by (intro outputOnly_compose) simp_all
  moreover have "seq (a # as) = (\<lambda>w. case a w of Inl e \<Rightarrow> Inl e | Inr w' \<Rightarrow> seq as w')"
    by (rule ext) simp
  ultimately show ?case by simp
qed

lemma outputOnly_deref:
  assumes "\<And>obj. outputOnly (k obj)"
  shows "outputOnly (deref heap p k)"
proof (rule outputOnlyI)
  fix w w'
  assume "deref heap p k w = Inr w'"
  then obtain obj where "k obj w = Inr w'"
    by (auto simp: deref_def split: option.splits)
  with assms [of obj] show "\<exists>s. w' = w\<lparr>stdout := stdout w @ s\<rparr>"
    unfolding outputOnly_def by blast
next
  fix w cn
  show "deref heap p k (w\<lparr>callNodes := cn\<rparr>) =
        (case deref heap p k w of Inl e \<Rightarrow> Inl e | Inr w' \<Rightarrow> Inr (w'\<lparr>callNodes := cn\<rparr>))"
  proof (cases "heap (declarations w) p")
    case None
    then show ?thesis by (simp add: deref_def)
  next
    case (Some obj)
    with assms [of obj] show ?thesis
      unfolding outputOnly_def by (simp add: deref_def)
  qed
qed

lemma outputOnly_print: "outputOnly (\<lambda>w. Inr (snd (print printer w)))"
  by (rule outputOnlyI) (auto simp: print_def world_unchanged)

lemma outputOnly_forEach:
  assumes "\<And>x. x \<in> set xs \<Longrightarrow> outputOnly (body x)"
  shows "outputOnly (forEach printer xs body)"
  using assms
proof (induction xs arbitrary: printer)
  case Nil
  have "forEach printer [] body = Inr" by (rule ext) simp
  then show ?case by (simp add: outputOnly_Inr)
next
  case (Cons x xs)
  let ?p = "printer\<lparr>printedFirst := True\<rparr>"
  have t: "outputOnly (\<lambda>w. case body x w of Inl e \<Rightarrow> Inl e | Inr w' \<Rightarrow> forEach ?p xs body w')"
    using Cons by (intro outputOnly_compose) simp_all
  have "forEach printer (x # xs) body =
      (\<lambda>w. case Inr (snd (print printer w)) of
              Inl e \<Rightarrow> Inl e
            | Inr w1 \<Rightarrow> (case body x w1 of Inl e \<Rightarrow> Inl e | Inr w' \<Rightarrow> forEach ?p xs body w'))"
    by (rule ext) (simp add: print_def)
  moreover have "outputOnly \<dots>"
    by (rule outputOnly_compose [OF outputOnly_print t])
  ultimately show ?case by simp
qed

lemma outputOnly_reportDocumentation: "outputOnly (reportDocumentation L doc)"
  unfolding reportDocumentation_def
  by (auto intro!: outputOnly_seq outputOnly_skip simp: outputOnly_printf outputOnly_putc)

lemma outputOnly_reportGenericArguments: "outputOnly (reportGenericArguments L m cs sc tc)"
proof -
  have loop: "outputOnly (\<lambda>w. case assignNames m sc (replicate (length m) []) of
              Inl e \<Rightarrow> Inl e
            | Inr gans \<Rightarrow> forEach newCommaPrinter [0 ..< length gans] (body gans) w)"
    if "\<And>gans i. outputOnly (body gans i)" for body
  proof (cases "assignNames m sc (replicate (length m) [])")
    case (Inl e)
    then show ?thesis by (simp add: outputOnly_fail)
  next
    case (Inr gans)
    then show ?thesis by (simp add: outputOnly_forEach that)
  qed
  show ?thesis
    unfolding reportGenericArguments_def
    by (intro outputOnly_seq)
       (auto intro!: loop outputOnly_seq
             simp: outputOnly_printf outputOnly_fail outputOnly_reportType)
qed

lemmas outputOnly_simps =
  outputOnly_printf outputOnly_putc outputOnly_fail outputOnly_reportType outputOnly_skip
  outputOnly_reportDocumentation outputOnly_reportGenericArguments

lemma outputOnly_reportFunction: "outputOnly (reportFunction L function returnKind tc)"
  unfolding reportFunction_def Let_def
  by (intro outputOnly_deref outputOnly_seq)
     (auto intro!: outputOnly_seq outputOnly_forEach
           simp: outputOnly_simps split: AccessLevel.splits option.splits)

lemma outputOnly_printFunctions: "outputOnly (printFunctions L typeDef fs)"
  unfolding printFunctions_def
  by (intro outputOnly_forEach outputOnly_reportFunction)

lemma outputOnly_reportBasics: "outputOnly (reportBasics L typeDef td)"
  unfolding reportBasics_def
  by (intro outputOnly_seq)
     (auto intro!: outputOnly_forEach outputOnly_deref
           simp: outputOnly_simps outputOnly_printFunctions outputOnly_reportFunction
           split: option.splits)

lemma outputOnly_report: "outputOnly (report L heap typeDef)"
  unfolding report_def
  by (intro outputOnly_deref outputOnly_seq)
     (auto simp: outputOnly_simps outputOnly_reportBasics)

lemma outputOnly_reportClass: "outputOnly (reportClass L typeDef)"
  unfolding reportClass_def
  by (intro outputOnly_deref outputOnly_seq)
     (auto intro!: outputOnly_deref simp: outputOnly_simps outputOnly_reportBasics
           split: option.splits)

lemma outputOnly_reportEnum: "outputOnly (reportEnum L typeDef)"
  unfolding reportEnum_def
  by (intro outputOnly_deref outputOnly_seq)
     (auto intro!: outputOnly_forEach outputOnly_seq
           simp: outputOnly_simps outputOnly_reportBasics)

lemma outputOnly_reportPackage: "outputOnly (reportPackage L p)"
  unfolding reportPackage_def
  by (intro outputOnly_deref)
     (auto intro!: outputOnly_seq outputOnly_forEach
           simp: outputOnly_simps outputOnly_report outputOnly_reportClass outputOnly_reportEnum
           split: prod.splits)

text \<open>
  C5: \<open>reportPackage\<close> and its helpers only write output. A run that returns leaves
  the declarations and the analysed call nodes unchanged and appends to \<open>stdout\<close>; and
  the run does not depend on the call nodes (the decisions of call resolution): with any
  other call nodes it fails or returns alike and writes the same bytes.
\<close>

theorem reporter_output_only:
  "(reportPackage L p w = Inr w' \<longrightarrow>
      declarations w' = declarations w \<and> callNodes w' = callNodes w \<and>
      (\<exists>s. stdout w' = stdout w @ s))
   \<and> reportPackage L p (w\<lparr>callNodes := cn\<rparr>) =
       (case reportPackage L p w of Inl e \<Rightarrow> Inl e | Inr v \<Rightarrow> Inr (v\<lparr>callNodes := cn\<rparr>))
   \<and> outputOnly (reportPackage L p)
   \<and> outputOnly (report L heap typeDef)
   \<and> outputOnly (reportClass L typeDef)
   \<and> outputOnly (reportEnum L typeDef)
   \<and> outputOnly (reportBasics L typeDef td)
   \<and> outputOnly (printFunctions L typeDef fs)
   \<and> outputOnly (reportFunction L function returnKind tc)
   \<and> outputOnly (reportGenericArguments L m constraints superCount tc)
   \<and> outputOnly (reportType L t tc)
   \<and> outputOnly (reportDocumentation L doc)"
proof -
  have o: "outputOnly (reportPackage L p)"
    by (rule outputOnly_reportPackage)
  have a: "declarations w' = declarations w \<and> callNodes w' = callNodes w \<and>
      (\<exists>s. stdout w' = stdout w @ s)" if r: "reportPackage L p w = Inr w'"
  proof -
    from o r obtain s where s: "w' = w\<lparr>stdout := stdout w @ s\<rparr>"
      unfolding outputOnly_def by blast
    then have "stdout w' = stdout w @ s" by simp
    with s show ?thesis by auto
  qed
  have b: "reportPackage L p (w\<lparr>callNodes := cn\<rparr>) =
       (case reportPackage L p w of Inl e \<Rightarrow> Inl e | Inr v \<Rightarrow> Inr (v\<lparr>callNodes := cn\<rparr>))"
    using o unfolding outputOnly_def by blast
  show ?thesis
    using a b o
    by (simp add: outputOnly_report outputOnly_reportClass outputOnly_reportEnum
          outputOnly_reportBasics outputOnly_printFunctions outputOnly_reportFunction
          outputOnly_reportGenericArguments outputOnly_reportType outputOnly_reportDocumentation)
qed

lemma example_run:
  "(case reportPackage exampleLibrary 1 exampleWorld of Inl e \<Rightarrow> None | Inr v \<Rightarrow> Some (stdout v)) =
   Some exampleOutput"
  by code_simp

theorem reporter_output_only_witness:
  "reportPackage exampleLibrary 1 exampleWorld = Inr (exampleWorld\<lparr>stdout := exampleOutput\<rparr>)
   \<and> reportPackage exampleLibrary 1 (exampleWorld\<lparr>callNodes := [7 \<mapsto> exampleNode]\<rparr>) =
       Inr (exampleWorld\<lparr>callNodes := [7 \<mapsto> exampleNode], stdout := exampleOutput\<rparr>)"
proof -
  from example_run obtain v where v: "reportPackage exampleLibrary 1 exampleWorld = Inr v"
    and s: "stdout v = exampleOutput"
    by (auto split: sum.splits)
  note t = reporter_output_only [of exampleLibrary 1 exampleWorld v "[7 \<mapsto> exampleNode]"]
  from t v have "declarations v = declarations exampleWorld" "callNodes v = callNodes exampleWorld"
    by blast+
  with s have e: "v = exampleWorld\<lparr>stdout := exampleOutput\<rparr>"
    by (intro world.equality) simp_all
  from t have "reportPackage exampleLibrary 1 (exampleWorld\<lparr>callNodes := [7 \<mapsto> exampleNode]\<rparr>) =
      (case reportPackage exampleLibrary 1 exampleWorld of
         Inl e \<Rightarrow> Inl e | Inr v \<Rightarrow> Inr (v\<lparr>callNodes := [7 \<mapsto> exampleNode]\<rparr>))"
    by blast
  with v e show ?thesis by simp
qed

subsection \<open>Comma-separated arrays\<close>

lemma outputOnly_appends:
  "outputOnly a \<Longrightarrow> a v = Inr v' \<Longrightarrow> \<exists>s. v' = v\<lparr>stdout := stdout v @ s\<rparr>"
  unfolding outputOnly_def by blast

lemma exampleFunction_reported:
  "declarations v = exampleDeclarations \<Longrightarrow>
   reportFunction exampleLibrary 100 Return (TypeContext 10 False (Some 100)) v =
     Inr (v\<lparr>stdout := stdout v @ exampleFunctionOutput\<rparr>)"
  by (simp add: reportFunction_def deref_def exampleDeclarations_def asFunction_def exampleFunction_def
        Let_def printf_def putc_def reportType_def reportGenericArguments_def reportDocumentation_def
        exampleLibrary_def exampleType_def c_str_def newCommaPrinter_def print_def
        exampleFunctionOutput_def)

text \<open>
  C9: a \<open>CommaPrinter\<close> writes a comma on every call of \<open>print\<close> but the first. A loop
  through a fresh printer is the sequence of its bodies with one comma written between
  each two of them, none before the first and none after the last, whatever the bodies
  do: \<open>n - 1\<close> commas for \<open>n\<close> items, none for no item. When the bodies return and
  write texts that depend on the declarations only, the loop writes these texts
  separated by single commas; and whenever a loop whose bodies only append returns, what
  it appended is the texts of its bodies separated by single commas. \<open>printFunctions\<close>
  is such a loop, over \<open>reportFunction\<close>, and the loop over the protocols a type
  conforms to is one over \<open>reportType\<close>.
\<close>

theorem CommaPrinter_separates:
  "print newCommaPrinter w = (\<lparr>printedFirst = True\<rparr>, w)
   \<and> print \<lparr>printedFirst = True\<rparr> w = (\<lparr>printedFirst = True\<rparr>, w\<lparr>stdout := stdout w @ '',''\<rparr>)
   \<and> forEach newCommaPrinter xs body = seq (separatedBy (putc (CHR '','')) (map body xs))
   \<and> length (separatedBy (putc (CHR '','')) (map body xs)) = length xs + (length xs - 1)
   \<and> forEach newCommaPrinter xs (\<lambda>x. seq []) w =
       Inr (w\<lparr>stdout := stdout w @ replicate (length xs - 1) (CHR '','')\<rparr>)
   \<and> ((\<forall>x \<in> set xs. \<forall>v. declarations v = declarations w \<longrightarrow>
          body x v = Inr (v\<lparr>stdout := stdout v @ f x\<rparr>)) \<longrightarrow>
       forEach newCommaPrinter xs body w = Inr (w\<lparr>stdout := stdout w @ commaSeparated (map f xs)\<rparr>)
       \<and> length (commaSeparated (map f xs)) = sum_list (map (\<lambda>x. length (f x)) xs) + (length xs - 1))
   \<and> ((\<forall>x \<in> set xs. \<forall>v v'. body x v = Inr v' \<longrightarrow> (\<exists>s. v' = v\<lparr>stdout := stdout v @ s\<rparr>)) \<and>
       forEach newCommaPrinter xs body w = Inr w' \<longrightarrow>
       (\<exists>ss. list_all2 (\<lambda>x s. \<exists>v. declarations v = declarations w \<and> callNodes v = callNodes w \<and>
                 body x v = Inr (v\<lparr>stdout := stdout v @ s\<rparr>)) xs ss \<and>
             w' = w\<lparr>stdout := stdout w @ commaSeparated ss\<rparr> \<and>
             length (commaSeparated ss) = sum_list (map length ss) + (length xs - 1)))
   \<and> printFunctions L typeDef fs =
       seq (separatedBy (putc (CHR '',''))
             (map (\<lambda>function. reportFunction L function Return (TypeContext typeDef False (Some function))) fs))
   \<and> (printFunctions L typeDef fs w = Inr w' \<longrightarrow>
       (\<exists>ss. list_all2 (\<lambda>function s. \<exists>v. declarations v = declarations w \<and> callNodes v = callNodes w \<and>
                 reportFunction L function Return (TypeContext typeDef False (Some function)) v =
                   Inr (v\<lparr>stdout := stdout v @ s\<rparr>)) fs ss \<and>
             w' = w\<lparr>stdout := stdout w @ commaSeparated ss\<rparr> \<and>
             length (commaSeparated ss) = sum_list (map length ss) + (length fs - 1)))
   \<and> ((\<forall>function \<in> set fs. \<forall>v. declarations v = declarations w \<longrightarrow>
          reportFunction L function Return (TypeContext typeDef False (Some function)) v =
            Inr (v\<lparr>stdout := stdout v @ g function\<rparr>)) \<longrightarrow>
       printFunctions L typeDef fs w = Inr (w\<lparr>stdout := stdout w @ commaSeparated (map g fs)\<rparr>))
   \<and> forEach newCommaPrinter ts (\<lambda>t. reportType L t tc) w =
       Inr (w\<lparr>stdout := stdout w @ commaSeparated (map (typeJSON L (declarations w) tc) ts)\<rparr>)"
proof (intro conjI impI)
  show "forEach newCommaPrinter ts (\<lambda>t. reportType L t tc) w =
       Inr (w\<lparr>stdout := stdout w @ commaSeparated (map (typeJSON L (declarations w) tc) ts)\<rparr>)"
    by (rule forEach_output_declarations) (simp add: reportType_output)
  show "print newCommaPrinter w = (\<lparr>printedFirst = True\<rparr>, w)"
    by (simp add: print_def newCommaPrinter_def)
  show "print \<lparr>printedFirst = True\<rparr> w = (\<lparr>printedFirst = True\<rparr>, w\<lparr>stdout := stdout w @ '',''\<rparr>)"
    by (simp add: print_def)
  show "forEach newCommaPrinter xs body = seq (separatedBy (putc (CHR '','')) (map body xs))"
    by (rule forEach_seq)
  show "length (separatedBy (putc (CHR '','')) (map body xs)) = length xs + (length xs - 1)"
    by (simp add: length_separatedBy)
  have e: "commaSeparated (map (\<lambda>x. []) xs) = replicate (length xs - 1) (CHR '','')"
    by (induction xs rule: induct_list012) auto
  have "forEach newCommaPrinter xs (\<lambda>x. seq []) w =
       Inr (w\<lparr>stdout := stdout w @ commaSeparated (map (\<lambda>x. []) xs)\<rparr>)"
    by (rule forEach_output_declarations) simp
  with e show "forEach newCommaPrinter xs (\<lambda>x. seq []) w =
       Inr (w\<lparr>stdout := stdout w @ replicate (length xs - 1) (CHR '','')\<rparr>)"
    by simp
  show "printFunctions L typeDef fs =
       seq (separatedBy (putc (CHR '',''))
             (map (\<lambda>function. reportFunction L function Return (TypeContext typeDef False (Some function))) fs))"
    unfolding printFunctions_def by (rule forEach_seq)
next
  assume h: "\<forall>x \<in> set xs. \<forall>v. declarations v = declarations w \<longrightarrow>
          body x v = Inr (v\<lparr>stdout := stdout v @ f x\<rparr>)"
  show "forEach newCommaPrinter xs body w = Inr (w\<lparr>stdout := stdout w @ commaSeparated (map f xs)\<rparr>)"
    by (rule forEach_output_declarations) (simp add: h)
  show "length (commaSeparated (map f xs)) = sum_list (map (\<lambda>x. length (f x)) xs) + (length xs - 1)"
    by (simp add: length_commaSeparated comp_def)
next
  assume h: "(\<forall>x \<in> set xs. \<forall>v v'. body x v = Inr v' \<longrightarrow> (\<exists>s. v' = v\<lparr>stdout := stdout v @ s\<rparr>)) \<and>
       forEach newCommaPrinter xs body w = Inr w'"
  then have r: "forEach newCommaPrinter xs body w = Inr w'"
    by blast
  have "\<exists>ss. list_all2 (\<lambda>x s. \<exists>v. declarations v = declarations w \<and> callNodes v = callNodes w \<and>
                 body x v = Inr (v\<lparr>stdout := stdout v @ s\<rparr>)) xs ss \<and>
             w' = w\<lparr>stdout := stdout w @ commaSeparated ss\<rparr>"
  proof (rule forEach_returns [where xs = xs and body = body, OF _ r])
    fix x v v'
    assume "x \<in> set xs" "body x v = Inr v'"
    with h show "\<exists>s. v' = v\<lparr>stdout := stdout v @ s\<rparr>"
      by blast
  qed
  then obtain ss
    where l: "list_all2 (\<lambda>x s. \<exists>v. declarations v = declarations w \<and> callNodes v = callNodes w \<and>
                 body x v = Inr (v\<lparr>stdout := stdout v @ s\<rparr>)) xs ss"
      and e: "w' = w\<lparr>stdout := stdout w @ commaSeparated ss\<rparr>"
    by blast
  from l have "length ss = length xs"
    by (simp add: list_all2_lengthD)
  then have "length (commaSeparated ss) = sum_list (map length ss) + (length xs - 1)"
    by (simp add: length_commaSeparated)
  with l e show "\<exists>ss. list_all2 (\<lambda>x s. \<exists>v. declarations v = declarations w \<and> callNodes v = callNodes w \<and>
                 body x v = Inr (v\<lparr>stdout := stdout v @ s\<rparr>)) xs ss \<and>
             w' = w\<lparr>stdout := stdout w @ commaSeparated ss\<rparr> \<and>
             length (commaSeparated ss) = sum_list (map length ss) + (length xs - 1)"
    by blast
next
  let ?body = "\<lambda>function. reportFunction L function Return (TypeContext typeDef False (Some function))"
  assume "printFunctions L typeDef fs w = Inr w'"
  then have r: "forEach newCommaPrinter fs ?body w = Inr w'"
    by (simp add: printFunctions_def)
  have "\<exists>ss. list_all2 (\<lambda>x s. \<exists>v. declarations v = declarations w \<and> callNodes v = callNodes w \<and>
                 ?body x v = Inr (v\<lparr>stdout := stdout v @ s\<rparr>)) fs ss \<and>
             w' = w\<lparr>stdout := stdout w @ commaSeparated ss\<rparr>"
  proof (rule forEach_returns [where xs = fs and body = ?body, OF _ r])
    fix x v v'
    assume "x \<in> set fs" "?body x v = Inr v'"
    then show "\<exists>s. v' = v\<lparr>stdout := stdout v @ s\<rparr>"
      by (intro outputOnly_appends [OF outputOnly_reportFunction])
  qed
  then obtain ss
    where l: "list_all2 (\<lambda>x s. \<exists>v. declarations v = declarations w \<and> callNodes v = callNodes w \<and>
                 ?body x v = Inr (v\<lparr>stdout := stdout v @ s\<rparr>)) fs ss"
      and e: "w' = w\<lparr>stdout := stdout w @ commaSeparated ss\<rparr>"
    by blast
  from l have "length ss = length fs"
    by (simp add: list_all2_lengthD)
  then have "length (commaSeparated ss) = sum_list (map length ss) + (length fs - 1)"
    by (simp add: length_commaSeparated)
  with l e show "\<exists>ss. list_all2 (\<lambda>function s. \<exists>v. declarations v = declarations w \<and> callNodes v = callNodes w \<and>
                 reportFunction L function Return (TypeContext typeDef False (Some function)) v =
                   Inr (v\<lparr>stdout := stdout v @ s\<rparr>)) fs ss \<and>
             w' = w\<lparr>stdout := stdout w @ commaSeparated ss\<rparr> \<and>
             length (commaSeparated ss) = sum_list (map length ss) + (length fs - 1)"
    by blast
next
  assume h: "\<forall>function \<in> set fs. \<forall>v. declarations v = declarations w \<longrightarrow>
          reportFunction L function Return (TypeContext typeDef False (Some function)) v =
            Inr (v\<lparr>stdout := stdout v @ g function\<rparr>)"
  show "printFunctions L typeDef fs w = Inr (w\<lparr>stdout := stdout w @ commaSeparated (map g fs)\<rparr>)"
    unfolding printFunctions_def
    by (rule forEach_output_declarations) (simp add: h)
qed

theorem CommaPrinter_separates_witness:
  "forEach newCommaPrinter [''a'', ''bc'', ''d''] printf emptyWorld =
       Inr (emptyWorld\<lparr>stdout := ''a,bc,d''\<rparr>)
   \<and> forEach newCommaPrinter [''a'', ''bc'', ''d''] printf =
       seq [printf ''a'', putc (CHR '',''), printf ''bc'', putc (CHR '',''), printf ''d'']
   \<and> forEach newCommaPrinter [''a'', ''bc'', ''d''] (\<lambda>x. seq []) emptyWorld =
       Inr (emptyWorld\<lparr>stdout := '',,''\<rparr>)
   \<and> forEach newCommaPrinter ([] :: string list) (\<lambda>x. seq []) emptyWorld =
       Inr (emptyWorld\<lparr>stdout := []\<rparr>)
   \<and> printFunctions exampleLibrary 10 [100, 100] exampleWorld =
       Inr (exampleWorld\<lparr>stdout := exampleFunctionOutput @ '','' @ exampleFunctionOutput\<rparr>)
   \<and> printFunctions exampleLibrary 10 [100] exampleWorld =
       Inr (exampleWorld\<lparr>stdout := exampleFunctionOutput\<rparr>)
   \<and> printFunctions exampleLibrary 10 [] exampleWorld = Inr (exampleWorld\<lparr>stdout := []\<rparr>)
   \<and> (\<exists>ss. length ss = 2 \<and>
         commaSeparated ss = exampleFunctionOutput @ '','' @ exampleFunctionOutput)
   \<and> forEach newCommaPrinter [exampleType 0, exampleType 1]
         (\<lambda>t. reportType exampleLibrary t (TypeContext 10 False None)) exampleWorld =
       Inr (exampleWorld\<lparr>stdout :=
         typeJSON exampleLibrary exampleDeclarations (TypeContext 10 False None) (exampleType 0) @ '','' @
         typeJSON exampleLibrary exampleDeclarations (TypeContext 10 False None) (exampleType 1)\<rparr>)"
proof -
  let ?body = "\<lambda>function. reportFunction exampleLibrary function Return (TypeContext 10 False (Some function))"
  let ?out = "exampleWorld\<lparr>stdout := exampleFunctionOutput @ '','' @ exampleFunctionOutput\<rparr>"
  have h: "\<forall>x \<in> set [''a'', ''bc'', ''d'']. \<forall>v. declarations v = declarations emptyWorld \<longrightarrow>
      printf x v = Inr (v\<lparr>stdout := stdout v @ x\<rparr>)"
    by (simp add: printf_def)
  have k2: "\<forall>function \<in> set [100, 100]. \<forall>v. declarations v = declarations exampleWorld \<longrightarrow>
      ?body function v = Inr (v\<lparr>stdout := stdout v @ (\<lambda>x. exampleFunctionOutput) function\<rparr>)"
    by (simp add: exampleWorld_def exampleFunction_reported)
  have k1: "\<forall>function \<in> set [100]. \<forall>v. declarations v = declarations exampleWorld \<longrightarrow>
      ?body function v = Inr (v\<lparr>stdout := stdout v @ (\<lambda>x. exampleFunctionOutput) function\<rparr>)"
    by (simp add: exampleWorld_def exampleFunction_reported)
  note t = CommaPrinter_separates [of emptyWorld "[''a'', ''bc'', ''d'']" printf "\<lambda>x. x"]
  note u = CommaPrinter_separates [of emptyWorld "[] :: string list" printf "\<lambda>x. x"]
  note p = CommaPrinter_separates [where w = exampleWorld and L = exampleLibrary and typeDef = 10
      and g = "\<lambda>x. exampleFunctionOutput" and xs = "[] :: string list" and body = printf
      and f = "\<lambda>x. x"]
  have s: "stdout emptyWorld = []" "stdout exampleWorld = []"
    by (simp_all add: emptyWorld_def exampleWorld_def)
  from t h have a: "forEach newCommaPrinter [''a'', ''bc'', ''d''] printf emptyWorld =
      Inr (emptyWorld\<lparr>stdout := stdout emptyWorld @ commaSeparated (map (\<lambda>x. x) [''a'', ''bc'', ''d''])\<rparr>)"
    by blast
  from t [of emptyWorld exampleLibrary 10 "[]" "\<lambda>x. exampleFunctionOutput"]
  have a': "forEach newCommaPrinter [''a'', ''bc'', ''d''] printf =
      seq (separatedBy (putc (CHR '','')) (map printf [''a'', ''bc'', ''d'']))"
    by blast
  from t have b: "forEach newCommaPrinter [''a'', ''bc'', ''d''] (\<lambda>x. seq []) emptyWorld =
      Inr (emptyWorld\<lparr>stdout := stdout emptyWorld @ replicate (length [''a'', ''bc'', ''d''] - 1) (CHR '','')\<rparr>)"
    by blast
  from u have c: "forEach newCommaPrinter ([] :: string list) (\<lambda>x. seq []) emptyWorld =
      Inr (emptyWorld\<lparr>stdout := stdout emptyWorld @ replicate (length ([] :: string list) - 1) (CHR '','')\<rparr>)"
    by blast
  from p [where fs = "[100, 100]" and w' = exampleWorld] k2
  have d: "printFunctions exampleLibrary 10 [100, 100] exampleWorld =
      Inr (exampleWorld\<lparr>stdout := stdout exampleWorld @
             commaSeparated (map (\<lambda>x. exampleFunctionOutput) [100, 100 :: nat])\<rparr>)"
    by blast
  from p [where fs = "[100]" and w' = exampleWorld] k1
  have e: "printFunctions exampleLibrary 10 [100] exampleWorld =
      Inr (exampleWorld\<lparr>stdout := stdout exampleWorld @
             commaSeparated (map (\<lambda>x. exampleFunctionOutput) [100 :: nat])\<rparr>)"
    by blast
  have k0: "\<forall>function \<in> set ([] :: nat list). \<forall>v. declarations v = declarations exampleWorld \<longrightarrow>
      ?body function v = Inr (v\<lparr>stdout := stdout v @ (\<lambda>x. exampleFunctionOutput) function\<rparr>)"
    by simp
  from p [where fs = "[]" and w' = exampleWorld] k0
  have f: "printFunctions exampleLibrary 10 [] exampleWorld =
      Inr (exampleWorld\<lparr>stdout := stdout exampleWorld @
             commaSeparated (map (\<lambda>x. exampleFunctionOutput) ([] :: nat list))\<rparr>)"
    by blast
  from d have d': "printFunctions exampleLibrary 10 [100, 100] exampleWorld = Inr ?out"
    by (simp add: s)
  from p [where fs = "[100, 100]" and w' = ?out] d'
  obtain ss where l: "list_all2 (\<lambda>function s. \<exists>v. declarations v = declarations exampleWorld \<and>
                 callNodes v = callNodes exampleWorld \<and>
                 ?body function v = Inr (v\<lparr>stdout := stdout v @ s\<rparr>)) [100, 100] ss"
    and o: "?out = exampleWorld\<lparr>stdout := stdout exampleWorld @ commaSeparated ss\<rparr>"
    by blast
  from l have "length ss = 2"
    by (auto dest: list_all2_lengthD)
  moreover from o have "stdout ?out = stdout (exampleWorld\<lparr>stdout := stdout exampleWorld @ commaSeparated ss\<rparr>)"
    by (rule arg_cong)
  then have "commaSeparated ss = exampleFunctionOutput @ '','' @ exampleFunctionOutput"
    by (simp add: s)
  ultimately have g: "\<exists>ss. length ss = 2 \<and>
         commaSeparated ss = exampleFunctionOutput @ '','' @ exampleFunctionOutput"
    by blast
  from p [where fs = "[]" and w' = exampleWorld and ts = "[exampleType 0, exampleType 1]"
      and tc = "TypeContext 10 False None"]
  have i: "forEach newCommaPrinter [exampleType 0, exampleType 1]
         (\<lambda>t. reportType exampleLibrary t (TypeContext 10 False None)) exampleWorld =
       Inr (exampleWorld\<lparr>stdout := stdout exampleWorld @
         commaSeparated (map (typeJSON exampleLibrary (declarations exampleWorld) (TypeContext 10 False None))
           [exampleType 0, exampleType 1])\<rparr>)"
    by blast
  have x: "declarations exampleWorld = exampleDeclarations"
    by (simp add: exampleWorld_def)
  have r: "replicate (length [''a'', ''bc'', ''d''] - 1) (CHR '','') = '',,''"
    by (simp add: numeral_2_eq_2)
  show ?thesis
    using a a' b c d' e f g i by (simp del: forEach.simps add: s r x)
qed

end
